theory Spec2Isabelle
  imports Main "HOL-Library.Word"
begin

section \<open>Strings and template literals\<close>

text \<open>
  JavaScript strings are modelled as \<^typ>\<open>string\<close>. Inside a template literal,
  \<^verbatim>\<open>${s[i]}\<close> yields the one-character string at index \<open>i\<close>, and the text
  \<^verbatim>\<open>undefined\<close> when \<open>i\<close> is out of range.
\<close>

definition jsIdx :: "string \<Rightarrow> nat \<Rightarrow> string" where
  "jsIdx s i = (if i < length s then [s ! i] else ''undefined'')"

section \<open>KacheryHubInterface: bucket paths\<close>

text \<open>
  \<^verbatim>\<open>getSubfeedPath\<close> (KacheryHubInterface.ts). The template literal of the source
  contains no \<^verbatim>\<open>${...}\<close> placeholder: every brace group is written without the
  dollar sign, so the literal is returned character for character, whatever the
  arguments are.
\<close>

definition getSubfeedPath :: "string \<Rightarrow> string \<Rightarrow> string" where
  "getSubfeedPath feedId subfeedHash =
     (let f = feedId; s = subfeedHash;
          subfeedPath = ''feeds/{f[0]}{f[1]}/{f[2]}{f[3]}/{f[4]}{f[5]}/{f}/subfeeds/{s[0]}{s[1]}/{s[2]}{s[3]}//{s[4]}{s[5]}/{s}''
      in subfeedPath)"

text \<open>
  The path the specification describes: fan-out by the first three two-character
  prefixes of \<open>feedId\<close> and of \<open>subfeedHash\<close>. This definition follows the
  specification's words and is only compared with the one above.
\<close>

definition specSubfeedPath :: "string \<Rightarrow> string \<Rightarrow> string" where
  "specSubfeedPath f s =
     ''feeds/'' @ jsIdx f 0 @ jsIdx f 1 @ ''/'' @ jsIdx f 2 @ jsIdx f 3 @ ''/'' @ jsIdx f 4 @ jsIdx f 5
       @ ''/'' @ f @ ''/subfeeds/'' @ jsIdx s 0 @ jsIdx s 1 @ ''/'' @ jsIdx s 2 @ jsIdx s 3 @ ''/''
       @ jsIdx s 4 @ jsIdx s 5 @ ''/'' @ s"

section \<open>LocalSubfeedSignedMessagesManager\<close>

text \<open>
  A signed subfeed message. Signatures are hex strings; \<open>messageNumber\<close> is a
  JavaScript number holding an integer; \<open>previousSignature\<close> is absent (or null)
  on the first message, which is \<open>None\<close> here. The payload \<open>message\<close> and the
  public key are opaque.
\<close>

type_synonym Signature = string

record 'm SubfeedMessageBody =
  message :: 'm
  messageNumber :: int
  previousSignature :: "Signature option"
  timestamp :: int

record 'm SignedSubfeedMessage =
  body :: "'m SubfeedMessageBody"
  signature :: Signature

datatype feedError =
    UnableToVerifySignature Signature
  | InconsistentPreviousSignature
  | IncorrectMessageNumber
  | NotInitialized
  | FirstMessageNumberNotZero
  | UnexpectedFirstMessageNumber int int
  | LocalFeedManagerError string

text \<open>
  The manager's private field \<^verbatim>\<open>#signedMessages\<close>: \<open>None\<close> is the JavaScript
  \<^verbatim>\<open>null\<close> of a manager that has not been initialized.
\<close>

record 'm Manager =
  signedMessages :: "'m SignedSubfeedMessage list option"

text \<open>
  \<^verbatim>\<open>msg.body.previousSignature || null\<close>: an absent field and every falsy value, which
  for a string is the empty string, become \<^verbatim>\<open>null\<close>.
\<close>

definition orNull :: "Signature option \<Rightarrow> Signature option" where
  "orNull x = (case x of None \<Rightarrow> None | Some s \<Rightarrow> (if s = [] then None else Some s))"

text \<open>
  The verification loop of \<^verbatim>\<open>initializeFromLocal\<close>, with its two loop variables
  \<open>previousSignature\<close> and \<open>previousMessageNumber\<close>. \<open>verifySignature\<close> is the Ed25519
  check of the crypto module, a parameter here. The result is the error thrown, if any.
\<close>

fun verifyMessages ::
  "('m SubfeedMessageBody \<Rightarrow> 'k \<Rightarrow> Signature \<Rightarrow> bool) \<Rightarrow> 'k \<Rightarrow> Signature option \<Rightarrow> int
     \<Rightarrow> 'm SignedSubfeedMessage list \<Rightarrow> feedError option" where
  "verifyMessages verifySignature publicKey previousSig previousMessageNumber [] = None"
| "verifyMessages verifySignature publicKey previousSig previousMessageNumber (msg # rest) =
     (if \<not> verifySignature (body msg) publicKey (signature msg)
        then Some (UnableToVerifySignature (signature msg))
      else if previousSig \<noteq> orNull (previousSignature (body msg))
        then Some InconsistentPreviousSignature
      else if previousMessageNumber + 1 \<noteq> messageNumber (body msg)
        then Some IncorrectMessageNumber
      else verifyMessages verifySignature publicKey (Some (signature msg))
             (messageNumber (body msg)) rest)"

text \<open>
  \<^verbatim>\<open>initializeFromLocal\<close>. \<open>fetched\<close> is what
  \<^verbatim>\<open>localFeedManager.getSignedSubfeedMessages(feedId, subfeedHash)\<close> produced: the
  messages, or the error it threw. The result is the error thrown (if any) and the
  manager afterwards; an exception leaves the manager as it was.
\<close>

definition initializeFromLocal ::
  "('m SubfeedMessageBody \<Rightarrow> 'k \<Rightarrow> Signature \<Rightarrow> bool) \<Rightarrow> 'k
     \<Rightarrow> (feedError + 'm SignedSubfeedMessage list) \<Rightarrow> 'm Manager
     \<Rightarrow> feedError option \<times> 'm Manager" where
  "initializeFromLocal verifySignature publicKey fetched mgr =
     (case fetched of
        Inl e \<Rightarrow> (Some e, mgr)
      | Inr messages \<Rightarrow>
          (case verifyMessages verifySignature publicKey None (-1) messages of
             Some e \<Rightarrow> (Some e, mgr)
           | None \<Rightarrow> (None, mgr\<lparr>signedMessages := Some messages\<rparr>)))"

definition initializeEmptyMessageList :: "'m Manager \<Rightarrow> 'm Manager" where
  "initializeEmptyMessageList mgr = mgr\<lparr>signedMessages := Some []\<rparr>"

definition isInitialized :: "'m Manager \<Rightarrow> bool" where
  "isInitialized mgr = (signedMessages mgr \<noteq> None)"

definition getNumMessages :: "'m Manager \<Rightarrow> feedError + nat" where
  "getNumMessages mgr =
     (case signedMessages mgr of None \<Rightarrow> Inl NotInitialized | Some ms \<Rightarrow> Inr (length ms))"

text \<open>
  The splice loop of \<^verbatim>\<open>addSignedMessages\<close>: a message is pushed when its number
  equals the length the list has at that moment, and skipped otherwise.
\<close>

fun pushMessages ::
  "'m SignedSubfeedMessage list \<Rightarrow> 'm SignedSubfeedMessage list \<Rightarrow> 'm SignedSubfeedMessage list" where
  "pushMessages current [] = current"
| "pushMessages current (sm # rest) =
     (if messageNumber (body sm) = int (length current)
      then pushMessages (current @ [sm]) rest
      else pushMessages current rest)"

text \<open>
  \<^verbatim>\<open>addSignedMessages\<close>. The backing log is the local feed manager, outside this
  class: \<open>addToSubfeed\<close> stands for its \<^verbatim>\<open>addSignedMessagesToSubfeed\<close>, taking the
  log's state and returning the new state or the error it threw. The result is the
  error thrown (if any), the log and the manager afterwards.
\<close>

definition addSignedMessages ::
  "('l \<Rightarrow> 'm SignedSubfeedMessage list \<Rightarrow> feedError + 'l)
     \<Rightarrow> 'm SignedSubfeedMessage list \<Rightarrow> 'l \<times> 'm Manager
     \<Rightarrow> feedError option \<times> 'l \<times> 'm Manager" where
  "addSignedMessages addToSubfeed signedMessagesToAdd st =
     (case st of (lfm, mgr) \<Rightarrow>
      (case signedMessages mgr of
         None \<Rightarrow> (Some NotInitialized, lfm, mgr)
       | Some current \<Rightarrow>
          (let firstAppendMessageNumber =
                 (if length signedMessagesToAdd = 0 then None
                  else Some (messageNumber (body (hd signedMessagesToAdd))));
               lastExistingMessageNumber =
                 (if length current = 0 then None
                  else Some (messageNumber (body (last current))));
               precondition =
                 (case firstAppendMessageNumber of
                    None \<Rightarrow> None
                  | Some first \<Rightarrow>
                     (case lastExistingMessageNumber of
                        None \<Rightarrow> (if first \<noteq> 0 then Some FirstMessageNumberNotZero else None)
                      | Some lastN \<Rightarrow>
                         (if first > lastN + 1
                          then Some (UnexpectedFirstMessageNumber first (lastN + 1))
                          else None)))
           in case precondition of
                Some e \<Rightarrow> (Some e, lfm, mgr)
              | None \<Rightarrow>
                 (case addToSubfeed lfm signedMessagesToAdd of
                    Inl e \<Rightarrow> (Some e, lfm, mgr)
                  | Inr lfm' \<Rightarrow>
                     (None, lfm',
                      mgr\<lparr>signedMessages := Some (pushMessages current signedMessagesToAdd)\<rparr>)))))"

text \<open>A backing log that accepts every batch and appends it: used for concrete runs.\<close>

definition appendingLog ::
  "'m SignedSubfeedMessage list \<Rightarrow> 'm SignedSubfeedMessage list
     \<Rightarrow> feedError + 'm SignedSubfeedMessage list" where
  "appendingLog lfm ms = Inr (lfm @ ms)"

text \<open>A verifier that accepts every signature, and a message with no payload: used for concrete runs.\<close>

definition acceptAll :: "'m SubfeedMessageBody \<Rightarrow> unit \<Rightarrow> Signature \<Rightarrow> bool" where
  "acceptAll b k s = True"

definition mkMessage :: "int \<Rightarrow> Signature option \<Rightarrow> Signature \<Rightarrow> unit SignedSubfeedMessage" where
  "mkMessage n prev sig =
     \<lparr>body = \<lparr>message = (), messageNumber = n, previousSignature = prev, timestamp = 0\<rparr>,
      signature = sig\<rparr>"

abbreviation num :: "'m SignedSubfeedMessage \<Rightarrow> int" where
  "num m \<equiv> messageNumber (body m)"

text \<open>Concrete inputs for the runs below.\<close>

definition freshManager :: "unit Manager" where
  "freshManager = \<lparr>signedMessages = None\<rparr>"

definition emptyManager :: "unit Manager" where
  "emptyManager = \<lparr>signedMessages = Some []\<rparr>"

definition msg0 :: "unit SignedSubfeedMessage" where
  "msg0 = mkMessage 0 None ''s0''"

definition msg1 :: "unit SignedSubfeedMessage" where
  "msg1 = mkMessage 1 (Some ''s0'') ''s1''"

definition msg2 :: "unit SignedSubfeedMessage" where
  "msg2 = mkMessage 2 (Some ''s1'') ''s2''"

section \<open>KacheryStorageManager: the content-addressed store\<close>

subsection \<open>The file system\<close>

text \<open>
  The store keeps no index in memory: its state is the file system under the storage
  directory. A file system maps a path to the bytes of the file there. Directories are
  not modelled: every \<^verbatim>\<open>mkdirSync(..., {recursive: true})\<close> of the source succeeds and
  changes no file. A write through a stream appends to the file at once.
  Paths are compared as they are written, and a hash is what the type \<^verbatim>\<open>Sha1Hash\<close>
  holds, a non-empty string of hex digits, so that a content path never names a
  directory. The empty hash is outside this: its content path ends in a slash and names
  the directory that \<^verbatim>\<open>mkdirSync\<close> has made, which \<open>existsSync\<close> below does not
  know of.

  SHA-1 is the \<^verbatim>\<open>crypto\<close> module's: a parameter \<open>H\<close> from bytes to the hex digest.
  Random names (\<^verbatim>\<open>randomAlphaString\<close>) are parameters as well.
\<close>

type_synonym Buffer = "8 word list"
type_synonym Sha1Hash = string
type_synonym FileSystem = "string \<rightharpoonup> Buffer"

datatype casError =
    RenameFailedFileDoesNotExist
  | RenameFailedEvenThoughFileExists
  | UnexpectedSizeAfterRenaming
  | UnexpectedSha1OfDownloadedFile Sha1Hash Sha1Hash
  | StreamFailure string
  | SocketClosed
  | MissingChunk Sha1Hash
  | UnableToGetReadStream
  | ReadRangeError
  | ReadFileMissing
  | UnexpectedSha1OfConcatenatedFile

text \<open>
  The manager: its storage directory, the file system it works on, and the calls made
  to \<^verbatim>\<open>_reportFileStored\<close> (each one invokes every registered \<^verbatim>\<open>onFileStored\<close>
  callback with the hash), oldest first.
\<close>

record CAS =
  storageDir :: string
  files :: FileSystem
  fileStored :: "Sha1Hash list"

definition existsSync :: "FileSystem \<Rightarrow> string \<Rightarrow> bool" where
  "existsSync fs p = (fs p \<noteq> None)"

text \<open>\<^verbatim>\<open>try { fs.unlinkSync(p) } catch(e) { }\<close>: a missing file is not an error.\<close>

definition unlinkQuiet :: "FileSystem \<Rightarrow> string \<Rightarrow> FileSystem" where
  "unlinkQuiet fs p = fs(p := None)"

text \<open>\<^verbatim>\<open>writeStream.write(buf)\<close> on the stream opened at \<open>p\<close>.\<close>

definition appendFile :: "FileSystem \<Rightarrow> string \<Rightarrow> Buffer \<Rightarrow> FileSystem" where
  "appendFile fs p buf = fs(p \<mapsto> (case fs p of None \<Rightarrow> buf | Some d \<Rightarrow> d @ buf))"

text \<open>\<^verbatim>\<open>fs.renameSync\<close>: fails (\<open>None\<close>) when the source does not exist.\<close>

definition renameSync :: "FileSystem \<Rightarrow> string \<Rightarrow> string \<Rightarrow> FileSystem option" where
  "renameSync fs src dst =
     (case fs src of
        None \<Rightarrow> None
      | Some d \<Rightarrow> Some (if src = dst then fs else (fs(dst \<mapsto> d))(src := None)))"

text \<open>
  \<^verbatim>\<open>renameAndCheck\<close>. After the rename the source polls the size of the destination
  for up to ten seconds; nothing else writes to the file meanwhile, so the poll is one
  comparison here. The mode change at the end is not modelled. The result is the error
  thrown (if any) and the file system afterwards: a failed size check leaves the
  renamed file in place.
\<close>

definition renameAndCheck ::
  "FileSystem \<Rightarrow> string \<Rightarrow> string \<Rightarrow> nat \<Rightarrow> casError option \<times> FileSystem" where
  "renameAndCheck fs srcPath dstPath expectedSizeBytes =
     (case renameSync fs srcPath dstPath of
        None \<Rightarrow>
          (if \<not> existsSync fs dstPath then (Some RenameFailedFileDoesNotExist, fs)
           else (Some RenameFailedEvenThoughFileExists, fs))
      | Some fs' \<Rightarrow>
          (case fs' dstPath of
             None \<Rightarrow> (Some RenameFailedFileDoesNotExist, fs')
           | Some d \<Rightarrow>
               (if length d = expectedSizeBytes then (None, fs')
                else (Some UnexpectedSizeAfterRenaming, fs'))))"

text \<open>
  The content path of a hash:
  \<^verbatim>\<open>${storageDir}/sha1/${s[0]}${s[1]}/${s[2]}${s[3]}/${s[4]}${s[5]}/${s}\<close>.
\<close>

definition destParentPathOf :: "string \<Rightarrow> Sha1Hash \<Rightarrow> string" where
  "destParentPathOf dir s =
     dir @ ''/sha1/'' @ jsIdx s 0 @ jsIdx s 1 @ ''/'' @ jsIdx s 2 @ jsIdx s 3 @ ''/''
       @ jsIdx s 4 @ jsIdx s 5"

definition destPathOf :: "string \<Rightarrow> Sha1Hash \<Rightarrow> string" where
  "destPathOf dir s = destParentPathOf dir s @ ''/'' @ s"

definition reportFileStored :: "CAS \<Rightarrow> Sha1Hash \<Rightarrow> CAS" where
  "reportFileStored cas sha1 = cas\<lparr>fileStored := fileStored cas @ [sha1]\<rparr>"

subsection \<open>Finding a file\<close>

text \<open>
  A link file holds JSON \<^verbatim>\<open>{path, manifestSha1, stat: {size, mtime}}\<close>. Reading and
  validating it (\<^verbatim>\<open>readJsonFile\<close>, then \<^verbatim>\<open>isLinkObject\<close>) is the parameter
  \<open>readLink\<close>: \<open>None\<close> when the text does not parse, parses to a falsy value or is
  not a link object. \<open>link_mtime\<close> is a JavaScript number that no path here inspects.
\<close>

record LinkObject =
  link_path :: string
  link_manifestSha1 :: "string option"
  link_size :: int
  link_mtime :: int

text \<open>A path in a condition (\<^verbatim>\<open>if (path1)\<close>): null and the empty string are falsy.\<close>

definition truthyPath :: "string option \<Rightarrow> bool" where
  "truthyPath p = (case p of None \<Rightarrow> False | Some s \<Rightarrow> s \<noteq> [])"

type_synonym LocalFileInfo = "string option \<times> nat option"

definition getLocalFileInfo1 :: "CAS \<Rightarrow> Sha1Hash \<Rightarrow> LocalFileInfo" where
  "getLocalFileInfo1 cas fileSha1 =
     (let path = destPathOf (storageDir cas) fileSha1
      in case files cas path of
           None \<Rightarrow> (None, None)
         | Some d \<Rightarrow> (Some path, Some (length d)))"

definition getLocalFileInfo2 ::
  "(Buffer \<Rightarrow> LinkObject option) \<Rightarrow> CAS \<Rightarrow> Sha1Hash \<Rightarrow> LocalFileInfo" where
  "getLocalFileInfo2 readLink cas fileSha1 =
     (let linkPath = destPathOf (storageDir cas) fileSha1 @ ''.link''
      in if existsSync (files cas) linkPath then
           (case files cas linkPath of
              None \<Rightarrow> (None, None)
            | Some txt \<Rightarrow>
               (case readLink txt of
                  None \<Rightarrow> (None, None)
                | Some x \<Rightarrow>
                   (let path = link_path x
                    in case files cas path of
                         None \<Rightarrow> (None, None)
                       | Some d \<Rightarrow> (Some path, Some (length d)))))
         else (None, None))"

definition getLocalFileInfo ::
  "(Buffer \<Rightarrow> LinkObject option) \<Rightarrow> CAS \<Rightarrow> Sha1Hash \<Rightarrow> LocalFileInfo" where
  "getLocalFileInfo readLink cas fileSha1 =
     (case getLocalFileInfo1 cas fileSha1 of (path1, size1) \<Rightarrow>
        if truthyPath path1 then (path1, size1)
        else (case getLocalFileInfo2 readLink cas fileSha1 of (path2, size2) \<Rightarrow>
                if truthyPath path2 then (path2, size2) else (None, None)))"

text \<open>
  A file key: a hash, and optionally a manifest hash and the byte range of another
  file that the key is a chunk of.
\<close>

datatype FileKey =
  FileKey (fk_sha1: Sha1Hash) (fk_manifestSha1: "Sha1Hash option") (fk_chunkOf: "ChunkOf option")
and ChunkOf =
  ChunkOf (co_fileKey: FileKey) (co_startByte: int) (co_endByte: int)

record FindFileResult =
  ff_found :: bool
  ff_size :: int
  ff_localFilePath :: "string option"

definition notFound :: FindFileResult where
  "notFound = \<lparr>ff_found = False, ff_size = 0, ff_localFilePath = None\<rparr>"

definition findFileChunkOf ::
  "(Buffer \<Rightarrow> LinkObject option) \<Rightarrow> CAS \<Rightarrow> FileKey \<Rightarrow> FindFileResult" where
  "findFileChunkOf readLink cas fileKey =
     (case fk_chunkOf fileKey of
        None \<Rightarrow> notFound
      | Some c \<Rightarrow>
         (case getLocalFileInfo readLink cas (fk_sha1 (co_fileKey c)) of (filePath, fileSize) \<Rightarrow>
            if truthyPath filePath
            then \<lparr>ff_found = True, ff_size = co_endByte c - co_startByte c, ff_localFilePath = None\<rparr>
            else notFound))"

definition findFile ::
  "(Buffer \<Rightarrow> LinkObject option) \<Rightarrow> CAS \<Rightarrow> FileKey \<Rightarrow> FindFileResult" where
  "findFile readLink cas fileKey =
     (if fk_sha1 fileKey \<noteq> [] then
        (case getLocalFileInfo readLink cas (fk_sha1 fileKey) of (filePath, fileSize) \<Rightarrow>
           (case fileSize of
              Some sz \<Rightarrow>
                if truthyPath filePath
                then \<lparr>ff_found = True, ff_size = int sz, ff_localFilePath = filePath\<rparr>
                else findFileChunkOf readLink cas fileKey
            | None \<Rightarrow> findFileChunkOf readLink cas fileKey))
      else findFileChunkOf readLink cas fileKey)"

subsection \<open>Storing a buffer\<close>

text \<open>
  \<^verbatim>\<open>storeFile(sha1, data)\<close>; \<open>rnd\<close> is the value of \<^verbatim>\<open>randomAlphaString(5)\<close>. The
  result is the error thrown (if any) and the manager afterwards.
\<close>

definition storeFile :: "string \<Rightarrow> Sha1Hash \<Rightarrow> Buffer \<Rightarrow> CAS \<Rightarrow> casError option \<times> CAS" where
  "storeFile rnd sha1 data cas =
     (let s = sha1;
          destPath = destPathOf (storageDir cas) s
      in if existsSync (files cas) destPath then (None, cas)
         else
           (let destPathTmp = destPath @ ''.'' @ rnd @ ''.tmp'';
                fs1 = (files cas)(destPathTmp \<mapsto> data)
            in if existsSync fs1 destPath
               then (None, cas\<lparr>files := unlinkQuiet fs1 destPathTmp\<rparr>)
               else
                 (case renameAndCheck fs1 destPathTmp destPath (length data) of
                    (Some e, fs2) \<Rightarrow> (Some e, cas\<lparr>files := fs2\<rparr>)
                  | (None, fs2) \<Rightarrow> (None, reportFileStored (cas\<lparr>files := fs2\<rparr>) sha1))))"

subsection \<open>Storing a stream, with its manifest\<close>

record FileManifestChunk =
  chunk_start :: nat
  chunk_end :: nat
  chunk_sha1 :: Sha1Hash

record FileManifest =
  manifest_size :: nat
  manifest_sha1 :: Sha1Hash
  manifest_chunks :: "FileManifestChunk list"

text \<open>
  The variables that \<^verbatim>\<open>_updateManifestChunks\<close> closes over: the chunks emitted so
  far, and \<^verbatim>\<open>manifestData = {buffers, byte1, byte2}\<close>.
\<close>

record ManifestData =
  manifestChunks :: "FileManifestChunk list"
  buffers :: "Buffer list"
  byte1 :: nat
  byte2 :: nat

definition chunkSize :: nat where
  "chunkSize = 20 * 1000 * 1000"

text \<open>
  The \<^verbatim>\<open>for (let i = 0; i < d.length; i += chunkSize)\<close> loop of
  \<^verbatim>\<open>_updateManifestChunks\<close>, from index \<open>i\<close>.
\<close>

function sliceLoop ::
  "(Buffer \<Rightarrow> Sha1Hash) \<Rightarrow> bool \<Rightarrow> Buffer \<Rightarrow> nat \<Rightarrow> ManifestData \<Rightarrow> ManifestData" where
  "sliceLoop H final d i md =
     (if i < length d then
        (let x = take (min chunkSize (length d - i)) (drop i d)
         in sliceLoop H final d (i + chunkSize)
              (if length x = chunkSize \<or> final
               then md\<lparr>manifestChunks := manifestChunks md @
                          [\<lparr>chunk_start = byte1 md,
                            chunk_end = byte1 md + length x,
                            chunk_sha1 = H x\<rparr>],
                        byte1 := byte1 md + length x\<rparr>
               else md\<lparr>buffers := buffers md @ [x]\<rparr>))
      else md)"
  by pat_completeness auto
termination
  by (relation "measure (\<lambda>(H, final, d, i, md). length d - i)") (auto simp: chunkSize_def)

declare sliceLoop.simps [simp del]

definition updateManifestChunks :: "(Buffer \<Rightarrow> Sha1Hash) \<Rightarrow> bool \<Rightarrow> ManifestData \<Rightarrow> ManifestData" where
  "updateManifestChunks H final md =
     (if byte2 md - byte1 md \<ge> chunkSize \<or> (final \<and> byte2 md > byte1 md) then
        (let d = concat (buffers md)
         in sliceLoop H final d 0 (md\<lparr>buffers := []\<rparr>))
      else md)"

text \<open>
  The events a \<^verbatim>\<open>DataStreamy\<close> delivers to its consumer, and the state of one call
  of \<^verbatim>\<open>storeFileFromStream\<close>: the temporary path (null when only the hash is
  wanted), the bytes fed to the hash, the manifest builder, the \<^verbatim>\<open>complete\<close> flag, and
  how the returned promise was settled (\<open>Inl\<close>: rejected; \<open>Inr\<close>: resolved with
  \<^verbatim>\<open>{sha1, manifestSha1}\<close>).
\<close>

datatype DataStreamyEvent = OnData Buffer | OnError casError | OnFinished

record StoreStream =
  ss_tmpDestPath :: "string option"
  ss_shasum :: Buffer
  ss_manifestData :: ManifestData
  ss_complete :: bool
  ss_settled :: "(casError + Sha1Hash \<times> Sha1Hash option) option"

definition cleanupStore :: "StoreStream \<Rightarrow> CAS \<Rightarrow> CAS" where
  "cleanupStore ss cas =
     (case ss_tmpDestPath ss of
        None \<Rightarrow> cas
      | Some tmp \<Rightarrow> cas\<lparr>files := unlinkQuiet (files cas) tmp\<rparr>)"

text \<open>
  \<^verbatim>\<open>nextStep\<close> of the \<^verbatim>\<open>onFinished\<close> handler. \<open>J\<close> is
  \<^verbatim>\<open>Buffer.from(JSON.stringify(manifest), 'utf-8')\<close>. The call
  \<^verbatim>\<open>this.storeFile(manifestSha1, manifestJson)\<close> is not awaited: it starts writing its
  temporary file and finishes after the rest of \<^verbatim>\<open>nextStep\<close> has run, and an error
  it throws reaches nobody. So its effect comes last here, and its error is dropped.
\<close>

definition nextStep ::
  "(Buffer \<Rightarrow> Sha1Hash) \<Rightarrow> (FileManifest \<Rightarrow> Buffer) \<Rightarrow> string \<Rightarrow> Sha1Hash
     \<Rightarrow> CAS \<times> StoreStream \<Rightarrow> CAS \<times> StoreStream" where
  "nextStep H J rnd2 sha1Computed st =
     (case st of (cas, ss) \<Rightarrow>
       (let md = updateManifestChunks H True (ss_manifestData ss);
            manifest = \<lparr>manifest_size = byte2 md, manifest_sha1 = sha1Computed,
                        manifest_chunks = manifestChunks md\<rparr>;
            manifestJson = J manifest;
            manifestSha1 = (if length (manifestChunks md) > 1 then Some (H manifestJson) else None);
            cas1 = cleanupStore ss cas;
            cas2 = reportFileStored cas1 sha1Computed;
            cas3 = (case manifestSha1 of
                      None \<Rightarrow> cas2
                    | Some m \<Rightarrow> snd (storeFile rnd2 m manifestJson cas2))
        in (cas3, ss\<lparr>ss_manifestData := md,
                     ss_settled := Some (Inr (sha1Computed, manifestSha1))\<rparr>)))"

text \<open>One event of the stream, handled by \<^verbatim>\<open>ds.onData\<close>, \<^verbatim>\<open>ds.onError\<close> or \<^verbatim>\<open>ds.onFinished\<close>.\<close>

fun storeStreamEvent ::
  "(Buffer \<Rightarrow> Sha1Hash) \<Rightarrow> (FileManifest \<Rightarrow> Buffer) \<Rightarrow> string \<Rightarrow> nat \<Rightarrow> bool
     \<Rightarrow> CAS \<times> StoreStream \<Rightarrow> DataStreamyEvent \<Rightarrow> CAS \<times> StoreStream" where
  "storeStreamEvent H J rnd2 fileSize calculateHashOnly (cas, ss) (OnData buf) =
     (if ss_complete ss then (cas, ss)
      else
        (let md = ss_manifestData ss;
             md1 = md\<lparr>buffers := buffers md @ [buf], byte2 := byte2 md + length buf\<rparr>
         in ((case ss_tmpDestPath ss of
                None \<Rightarrow> cas
              | Some tmp \<Rightarrow> cas\<lparr>files := appendFile (files cas) tmp buf\<rparr>),
             ss\<lparr>ss_shasum := ss_shasum ss @ buf,
                ss_manifestData := updateManifestChunks H False md1\<rparr>)))"
| "storeStreamEvent H J rnd2 fileSize calculateHashOnly (cas, ss) (OnError err) =
     (if ss_complete ss then (cas, ss)
      else (cleanupStore ss cas, ss\<lparr>ss_complete := True, ss_settled := Some (Inl err)\<rparr>))"
| "storeStreamEvent H J rnd2 fileSize calculateHashOnly (cas, ss) OnFinished =
     (if ss_complete ss then (cas, ss)
      else
        (let ss1 = ss\<lparr>ss_complete := True\<rparr>;
             sha1Computed = H (ss_shasum ss);
             s = sha1Computed;
             destPath = destPathOf (storageDir cas) s
         in case ss_tmpDestPath ss of
              Some tmpDestPath \<Rightarrow>
                if \<not> calculateHashOnly then
                  (if existsSync (files cas) destPath then nextStep H J rnd2 sha1Computed (cas, ss1)
                   else
                     (case renameAndCheck (files cas) tmpDestPath destPath fileSize of
                        (None, fs') \<Rightarrow> nextStep H J rnd2 sha1Computed (cas\<lparr>files := fs'\<rparr>, ss1)
                      | (Some err3, fs') \<Rightarrow>
                          (cleanupStore ss1 (cas\<lparr>files := fs'\<rparr>),
                           ss1\<lparr>ss_settled := Some (Inl err3)\<rparr>)))
                else nextStep H J rnd2 sha1Computed (cas, ss1)
            | None \<Rightarrow> nextStep H J rnd2 sha1Computed (cas, ss1)))"

text \<open>
  \<^verbatim>\<open>storeFileFromStream(ds, fileSize, {calculateHashOnly})\<close>, run on the events that
  \<open>ds\<close> delivers. \<open>rnd\<close> names the temporary file of the stream, \<open>rnd2\<close> the one of
  the manifest. Opening the write stream creates the temporary file, empty.
\<close>

definition storeFileFromStream ::
  "(Buffer \<Rightarrow> Sha1Hash) \<Rightarrow> (FileManifest \<Rightarrow> Buffer) \<Rightarrow> string \<Rightarrow> string
     \<Rightarrow> DataStreamyEvent list \<Rightarrow> nat \<Rightarrow> bool \<Rightarrow> CAS \<Rightarrow> CAS \<times> StoreStream" where
  "storeFileFromStream H J rnd rnd2 ds fileSize calculateHashOnly cas =
     (let tmpDestPath =
            (if \<not> calculateHashOnly then Some (storageDir cas @ ''/store.file.'' @ rnd @ ''.tmp'')
             else None);
          cas0 = (case tmpDestPath of
                    None \<Rightarrow> cas
                  | Some tmp \<Rightarrow> cas\<lparr>files := (files cas)(tmp \<mapsto> [])\<rparr>);
          ss0 = \<lparr>ss_tmpDestPath = tmpDestPath, ss_shasum = [],
                 ss_manifestData = \<lparr>manifestChunks = [], buffers = [], byte1 = 0, byte2 = 0\<rparr>,
                 ss_complete = False, ss_settled = None\<rparr>
      in foldl (storeStreamEvent H J rnd2 fileSize calculateHashOnly) (cas0, ss0) ds)"

subsection \<open>Downloading from a bucket\<close>

text \<open>
  What the HTTP response stream and its socket deliver: \<^verbatim>\<open>'data'\<close>, \<^verbatim>\<open>'error'\<close>,
  \<^verbatim>\<open>'end'\<close>, the socket's \<^verbatim>\<open>'close'\<close>, and the consumer cancelling the returned
  \<^verbatim>\<open>DataStreamy\<close>. The calls made on the producer side of that \<^verbatim>\<open>DataStreamy\<close> are
  recorded in order.
\<close>

datatype HttpEvent = HttpData Buffer | HttpError casError | HttpEnd | SocketClose | Cancelled

datatype ProducerCall = ProducerStart nat | IncrementBytes nat | ProducerError casError | ProducerEnd

record Download =
  dl_tmpDestPath :: string
  dl_shasum :: Buffer
  dl_complete :: bool
  dl_producer :: "ProducerCall list"
  dl_bytesReceived :: "nat list"
  dl_requestDestroyed :: bool

definition dlCleanup :: "Download \<Rightarrow> CAS \<Rightarrow> CAS" where
  "dlCleanup dl cas = cas\<lparr>files := unlinkQuiet (files cas) (dl_tmpDestPath dl)\<rparr>"

definition dlReportError :: "casError \<Rightarrow> CAS \<times> Download \<Rightarrow> CAS \<times> Download" where
  "dlReportError err st =
     (case st of (cas, dl) \<Rightarrow>
        (dlCleanup dl cas, dl\<lparr>dl_producer := dl_producer dl @ [ProducerError err]\<rparr>))"

definition dlReportDone :: "Sha1Hash \<Rightarrow> CAS \<times> Download \<Rightarrow> CAS \<times> Download" where
  "dlReportDone sha1 st =
     (case st of (cas, dl) \<Rightarrow>
        (reportFileStored (dlCleanup dl cas) sha1,
         dl\<lparr>dl_producer := dl_producer dl @ [ProducerEnd]\<rparr>))"

text \<open>One event; \<open>sha1\<close> is \<^verbatim>\<open>o.sha1\<close>, \<open>size'\<close> (\<^verbatim>\<open>size\<close> in the source) the content length of the response.\<close>

fun downloadEvent ::
  "(Buffer \<Rightarrow> Sha1Hash) \<Rightarrow> Sha1Hash \<Rightarrow> nat \<Rightarrow> CAS \<times> Download \<Rightarrow> HttpEvent \<Rightarrow> CAS \<times> Download" where
  "downloadEvent H sha1 size' (cas, dl) Cancelled =
     (if dl_complete dl then (cas, dl) else (cas, dl\<lparr>dl_requestDestroyed := True\<rparr>))"
| "downloadEvent H sha1 size' (cas, dl) (HttpData data) =
     (let dl1 = dl\<lparr>dl_bytesReceived := dl_bytesReceived dl @ [length data]\<rparr>
      in if dl_complete dl then (cas, dl1)
         else (cas\<lparr>files := appendFile (files cas) (dl_tmpDestPath dl) data\<rparr>,
               dl1\<lparr>dl_shasum := dl_shasum dl @ data,
                   dl_producer := dl_producer dl @ [IncrementBytes (length data)]\<rparr>))"
| "downloadEvent H sha1 size' (cas, dl) (HttpError err) =
     (if dl_complete dl then (cas, dl)
      else dlReportError err (cas, dl\<lparr>dl_complete := True\<rparr>))"
| "downloadEvent H sha1 size' (cas, dl) HttpEnd =
     (if dl_complete dl then (cas, dl)
      else
        (let dl1 = dl\<lparr>dl_complete := True\<rparr>;
             sha1Computed = H (dl_shasum dl);
             s = sha1Computed
         in if s \<noteq> sha1
            then dlReportError (UnexpectedSha1OfDownloadedFile s sha1) (cas, dl1)
            else
              (let destPath = destPathOf (storageDir cas) s
               in if existsSync (files cas) destPath then dlReportDone sha1 (cas, dl1)
                  else
                    (case renameAndCheck (files cas) (dl_tmpDestPath dl) destPath size' of
                       (None, fs') \<Rightarrow> dlReportDone sha1 (cas\<lparr>files := fs'\<rparr>, dl1)
                     | (Some err3, fs') \<Rightarrow> dlReportError err3 (cas\<lparr>files := fs'\<rparr>, dl1)))))"
| "downloadEvent H sha1 size' (cas, dl) SocketClose =
     (if dl_complete dl then (cas, dl)
      else dlReportError SocketClosed (cas, dl\<lparr>dl_complete := True\<rparr>))"

text \<open>
  \<^verbatim>\<open>storeFileFromBucketUrl(url, {sha1, nodeStats, channelName})\<close>. \<open>response\<close> is what
  \<^verbatim>\<open>axios.get\<close> gave for the URL: the error it threw, or the content length and the
  events of the response stream. The temporary file is created before the request is
  made. The result is the error thrown by the call itself (if any), the manager, and
  the state of the download once every event has been handled.
\<close>

definition storeFileFromBucketUrl ::
  "(Buffer \<Rightarrow> Sha1Hash) \<Rightarrow> string \<Rightarrow> (casError + nat \<times> HttpEvent list) \<Rightarrow> Sha1Hash \<Rightarrow> CAS
     \<Rightarrow> casError option \<times> CAS \<times> Download" where
  "storeFileFromBucketUrl H rnd response sha1 cas =
     (let tmpDestPath = storageDir cas @ ''/store.file.'' @ rnd @ ''.tmp'';
          cas0 = cas\<lparr>files := (files cas)(tmpDestPath \<mapsto> [])\<rparr>;
          dl0 = \<lparr>dl_tmpDestPath = tmpDestPath, dl_shasum = [], dl_complete = False,
                 dl_producer = [], dl_bytesReceived = [], dl_requestDestroyed = False\<rparr>
      in case response of
           Inl e \<Rightarrow> (Some e, cas0, dl0)
         | Inr (size', events) \<Rightarrow>
             (case foldl (downloadEvent H sha1 size')
                     (cas0, dl0\<lparr>dl_producer := [ProducerStart size']\<rparr>) events of
                (cas', dl') \<Rightarrow> (None, cas', dl')))"

subsection \<open>Concatenating chunks\<close>

text \<open>
  \<^verbatim>\<open>createReadStreamForFile(path, offset, size)\<close> and the data the stream delivers:
  the bytes from \<open>offset\<close> to \<open>offset + size - 1\<close>. Node's \<^verbatim>\<open>fs.createReadStream\<close>
  throws a range error for a negative \<open>start\<close> or \<open>end\<close> and for \<open>start > end\<close>, so
  a size of zero is an error; a missing file is an error of the stream.
\<close>

definition readFileRange :: "FileSystem \<Rightarrow> string \<Rightarrow> int \<Rightarrow> int \<Rightarrow> casError + Buffer" where
  "readFileRange fs path offset size' =
     (let start = offset; end' = offset + size' - 1
      in if start < 0 \<or> end' < 0 \<or> start > end' then Inl ReadRangeError
         else (case fs path of
                 None \<Rightarrow> Inl ReadFileMissing
               | Some d \<Rightarrow> Inr (take (nat size') (drop (nat offset) d))))"

text \<open>
  \<^verbatim>\<open>getFileDataStreamy(fileKey)\<close> with no byte range, through \<^verbatim>\<open>getFileReadStream\<close>:
  all the data the stream delivers, or the error.
\<close>

definition getFileDataChunkOf ::
  "(Buffer \<Rightarrow> LinkObject option) \<Rightarrow> CAS \<Rightarrow> FileKey \<Rightarrow> casError + Buffer" where
  "getFileDataChunkOf readLink cas fileKey =
     (case fk_chunkOf fileKey of
        None \<Rightarrow> Inl UnableToGetReadStream
      | Some c \<Rightarrow>
         (case getLocalFileInfo readLink cas (fk_sha1 (co_fileKey c)) of (filePath, fileSize) \<Rightarrow>
            (case filePath of
               Some p \<Rightarrow>
                 if p \<noteq> []
                 then readFileRange (files cas) p (co_startByte c + 0) (co_endByte c - co_startByte c)
                 else Inl UnableToGetReadStream
             | None \<Rightarrow> Inl UnableToGetReadStream)))"

definition getFileData ::
  "(Buffer \<Rightarrow> LinkObject option) \<Rightarrow> CAS \<Rightarrow> FileKey \<Rightarrow> casError + Buffer" where
  "getFileData readLink cas fileKey =
     (if fk_sha1 fileKey \<noteq> [] then
        (case getLocalFileInfo readLink cas (fk_sha1 fileKey) of
           (Some p, Some fileSize) \<Rightarrow>
             if p \<noteq> [] then readFileRange (files cas) p 0 (int fileSize)
             else getFileDataChunkOf readLink cas fileKey
         | _ \<Rightarrow> getFileDataChunkOf readLink cas fileKey)
      else getFileDataChunkOf readLink cas fileKey)"

text \<open>The first loop of \<^verbatim>\<open>concatenateChunksAndStoreResult\<close>: is every chunk there?\<close>

fun verifyChunks ::
  "(Buffer \<Rightarrow> LinkObject option) \<Rightarrow> CAS \<Rightarrow> Sha1Hash list \<Rightarrow> casError option" where
  "verifyChunks readLink cas [] = None"
| "verifyChunks readLink cas (chunkSha1 # rest) =
     (if \<not> ff_found (findFile readLink cas (FileKey chunkSha1 None None))
      then Some (MissingChunk chunkSha1)
      else verifyChunks readLink cas rest)"

text \<open>
  The second loop: each chunk is read, hashed and written to the temporary file. The
  state is the manager, the bytes hashed so far and \<^verbatim>\<open>totalSizeBytes\<close>.
\<close>

fun appendChunks ::
  "(Buffer \<Rightarrow> LinkObject option) \<Rightarrow> string \<Rightarrow> Sha1Hash list \<Rightarrow> CAS \<times> Buffer \<times> nat
     \<Rightarrow> casError option \<times> CAS \<times> Buffer \<times> nat" where
  "appendChunks readLink tmpPath [] st = (None, st)"
| "appendChunks readLink tmpPath (chunkSha1 # rest) (cas, shasum, totalSizeBytes) =
     (case getFileData readLink cas (FileKey chunkSha1 None None) of
        Inl err \<Rightarrow> (Some err, cas, shasum, totalSizeBytes)
      | Inr buf \<Rightarrow>
          appendChunks readLink tmpPath rest
            (cas\<lparr>files := appendFile (files cas) tmpPath buf\<rparr>,
             shasum @ buf, totalSizeBytes + length buf))"

text \<open>\<^verbatim>\<open>createTemporaryFilePath({storageDir, prefix})\<close>, with its random part \<open>rnd\<close>.\<close>

definition createTemporaryFilePath :: "string \<Rightarrow> string \<Rightarrow> string \<Rightarrow> string" where
  "createTemporaryFilePath dir prefix rnd =
     (let dirPath = dir @ ''/tmp'' in dirPath @ ''/'' @ prefix @ ''-'' @ rnd)"

text \<open>
  \<^verbatim>\<open>concatenateChunksAndStoreResult(sha1, chunkSha1s)\<close>; \<open>rnd\<close> is the random part
  of the temporary path. The result is the error
  thrown (if any) and the manager afterwards.
\<close>

definition concatenateChunksAndStoreResult ::
  "(Buffer \<Rightarrow> Sha1Hash) \<Rightarrow> (Buffer \<Rightarrow> LinkObject option) \<Rightarrow> string \<Rightarrow> Sha1Hash \<Rightarrow> Sha1Hash list
     \<Rightarrow> CAS \<Rightarrow> casError option \<times> CAS" where
  "concatenateChunksAndStoreResult H readLink rnd sha1 chunkSha1s cas =
     (let s = sha1;
          destPath = destPathOf (storageDir cas) s
      in if existsSync (files cas) destPath then (None, cas)
         else
           (case verifyChunks readLink cas chunkSha1s of
              Some err \<Rightarrow> (Some err, cas)
            | None \<Rightarrow>
               (let tmpPath = createTemporaryFilePath (storageDir cas) ''kachery-daemon-concat-'' rnd;
                    cas0 = cas\<lparr>files := (files cas)(tmpPath \<mapsto> [])\<rparr>
                in case appendChunks readLink tmpPath chunkSha1s (cas0, [], 0) of
                     (Some err, cas1, shasum, totalSizeBytes) \<Rightarrow> (Some err, cas1)
                   | (None, cas1, shasum, totalSizeBytes) \<Rightarrow>
                       (let sha1Computed = H shasum
                        in if sha1Computed \<noteq> sha1 then (Some UnexpectedSha1OfConcatenatedFile, cas1)
                           else if existsSync (files cas1) destPath
                           then (None, cas1\<lparr>files := unlinkQuiet (files cas1) tmpPath\<rparr>)
                           else
                             (case renameAndCheck (files cas1) tmpPath destPath totalSizeBytes of
                                (Some err, fs') \<Rightarrow> (Some err, cas1\<lparr>files := fs'\<rparr>)
                              | (None, fs') \<Rightarrow>
                                  (None, reportFileStored (cas1\<lparr>files := fs'\<rparr>) sha1))))))"

text \<open>Concrete inputs for the runs below: a hash that is constant, a reader of link files.\<close>

definition zeroHash :: "Buffer \<Rightarrow> Sha1Hash" where
  "zeroHash b = ''0000000000000000000000000000000000000000''"


definition noLinks :: "Buffer \<Rightarrow> LinkObject option" where
  "noLinks txt = None"

definition emptyStore :: CAS where
  "emptyStore = \<lparr>storageDir = ''/k'', files = Map.empty, fileStored = []\<rparr>"

definition staleLink :: "Buffer \<Rightarrow> LinkObject option" where
  "staleLink txt =
     Some \<lparr>link_path = ''/data/f'', link_manifestSha1 = None, link_size = 5, link_mtime = 0\<rparr>"

definition linkedStore :: CAS where
  "linkedStore =
     \<lparr>storageDir = ''/k'',
      files = [''/k/sha1/ab/cd/ef/abcdef.link'' \<mapsto> [123, 125], ''/data/f'' \<mapsto> [1, 2, 3]],
      fileStored = []\<rparr>"

definition chunkStore :: CAS where
  "chunkStore =
     \<lparr>storageDir = ''/k'', files = [''/k/sha1/c1/c1/c1/c1c1c1'' \<mapsto> [1, 2, 3]], fileStored = []\<rparr>"

subsection \<open>Notions used in the proofs about the manifest builder\<close>

text \<open>
  \<open>contiguous b cs e\<close>: the chunks \<open>cs\<close>, in order, cover the bytes from \<open>b\<close> to
  \<open>e\<close> with neither gap nor overlap. \<open>fullChunks\<close>: every chunk has exactly
  \<open>chunkSize\<close> bytes. \<open>mdInv\<close> is the invariant of the builder between two events.
\<close>

fun contiguous :: "nat \<Rightarrow> FileManifestChunk list \<Rightarrow> nat \<Rightarrow> bool" where
  "contiguous b [] e = (b = e)"
| "contiguous b (c # cs) e = (chunk_start c = b \<and> contiguous (chunk_end c) cs e)"

definition fullChunks :: "FileManifestChunk list \<Rightarrow> bool" where
  "fullChunks cs = (\<forall>c\<in>set cs. chunk_end c = chunk_start c + chunkSize)"

definition mdInv :: "ManifestData \<Rightarrow> bool" where
  "mdInv md = (contiguous 0 (manifestChunks md) (byte1 md) \<and> fullChunks (manifestChunks md)
     \<and> byte1 md + length (concat (buffers md)) = byte2 md
     \<and> length (concat (buffers md)) < chunkSize)"

section \<open>KacheryHubInterface: channels and the request for a file\<close>

text \<open>
  A channel membership of the node configuration. A role or permission that is absent
  is falsy, \<open>False\<close> here; \<open>authorization\<close> and \<open>channelBucketUri\<close> may be absent.
\<close>

record ChannelFlags =
  requestFiles :: bool
  provideFiles :: bool
  requestFeeds :: bool
  provideFeeds :: bool

record Authorization =
  permissions :: ChannelFlags

record NodeChannelMembership =
  channelName :: string
  channelBucketUri :: "string option"
  roles :: ChannelFlags
  authorization :: "Authorization option"

record NodeConfig =
  channelMemberships :: "NodeChannelMembership list option"

text \<open>The bodies of pubsub messages; the status \<^verbatim>\<open>''\<close> is \<open>NoStatus\<close>.\<close>

datatype UploadStatus = NoStatus | Pending | Started | Finished

datatype PubsubMessageBody =
    RequestFile FileKey
  | UploadFileStatus FileKey UploadStatus
  | RequestSubfeed string string int
  | SubfeedMessageCountUpdate string string nat

record IncomingKacheryHubPubsubMessage =
  in_channelName :: string
  in_pubsubChannelName :: string
  in_fromNodeId :: string
  in_message :: PubsubMessageBody

text \<open>
  The interface: its node configuration (null until initialized), the registry of
  pubsub clients (channel name and the pubsub channels subscribed to), and what it has
  done to the outside: the messages published (channel, pubsub channel, body) and the
  calls of the registered callbacks, oldest first.
\<close>

record Hub =
  nodeConfig :: "NodeConfig option"
  pubsubClients :: "(string \<times> string list) list"
  published :: "(string \<times> string \<times> PubsubMessageBody) list"
  incomingFileRequestCalls :: "(FileKey \<times> string \<times> string) list"
  requestSubfeedCalls :: "(string \<times> string \<times> string \<times> int) list"
  subfeedMessageCountUpdateCalls :: "(string \<times> string \<times> string \<times> nat) list"

text \<open>
  Modelled from the spec: \<^verbatim>\<open>KacheryHubClient\<close> is not among the sources. Of it, the
  interface uses a registry of pubsub clients, one per channel membership:
  \<^verbatim>\<open>createPubsubClientForChannel(channelName, subscribeTo)\<close> registers a client for a
  channel that has none (the source notes that an existing one is not recreated), and
  \<^verbatim>\<open>getPubsubClientForChannel(channelName)\<close>, a lookup in \<open>pubsubClients\<close>, finds it.
\<close>

definition createPubsubClientForChannel :: "string \<Rightarrow> string list \<Rightarrow> Hub \<Rightarrow> Hub" where
  "createPubsubClientForChannel name subscribeTo hub =
     (case map_of (pubsubClients hub) name of
        Some existing \<Rightarrow> hub
      | None \<Rightarrow> hub\<lparr>pubsubClients := pubsubClients hub @ [(name, subscribeTo)]\<rparr>)"

text \<open>\<^verbatim>\<open>nodeConfig.channelMemberships || []\<close>.\<close>

definition membershipsOf :: "NodeConfig \<Rightarrow> NodeChannelMembership list" where
  "membershipsOf cfg = (case channelMemberships cfg of None \<Rightarrow> [] | Some cms \<Rightarrow> cms)"

text \<open>The loop of \<^verbatim>\<open>_doInitialize\<close> over the channel memberships.\<close>

fun createPubsubClients :: "NodeChannelMembership list \<Rightarrow> Hub \<Rightarrow> Hub" where
  "createPubsubClients [] hub = hub"
| "createPubsubClients (cm # rest) hub =
     createPubsubClients rest
       (case authorization cm of
          None \<Rightarrow> hub
        | Some au \<Rightarrow>
           (let subscribeToPubsubChannels =
                  (if requestFiles (permissions au) \<and> requestFiles (roles cm)
                   then [channelName cm @ ''-provideFiles''] else [])
                  @ (if provideFiles (permissions au) \<and> provideFiles (roles cm)
                     then [channelName cm @ ''-requestFiles''] else [])
                  @ (if requestFeeds (permissions au) \<and> requestFeeds (roles cm)
                     then [channelName cm @ ''-provideFeeds''] else [])
                  @ (if provideFeeds (permissions au) \<and> provideFeeds (roles cm)
                     then [channelName cm @ ''-requestFeeds''] else [])
            in createPubsubClientForChannel (channelName cm) subscribeToPubsubChannels hub))"

text \<open>
  \<^verbatim>\<open>_doInitialize\<close>; \<open>fetched\<close> is what \<^verbatim>\<open>fetchNodeConfig\<close> gave, \<open>None\<close> when it
  threw.
\<close>

definition doInitialize :: "NodeConfig option \<Rightarrow> Hub \<Rightarrow> Hub" where
  "doInitialize fetched hub =
     (case fetched of
        None \<Rightarrow> hub
      | Some cfg \<Rightarrow> (createPubsubClients (membershipsOf cfg) hub)\<lparr>nodeConfig := Some cfg\<rparr>)"

definition publishMessageToPubsubChannel ::
  "string \<Rightarrow> string \<Rightarrow> PubsubMessageBody \<Rightarrow> Hub \<Rightarrow> Hub" where
  "publishMessageToPubsubChannel name pubsubChannelName messageBody hub =
     (case map_of (pubsubClients hub) name of
        None \<Rightarrow> hub
      | Some pubsubClient \<Rightarrow>
          hub\<lparr>published := published hub @ [(name, pubsubChannelName, messageBody)]\<rparr>)"

text \<open>The publishing loop of \<^verbatim>\<open>requestFileFromChannels\<close>.\<close>

fun publishRequestFile :: "FileKey \<Rightarrow> NodeChannelMembership list \<Rightarrow> Hub \<Rightarrow> Hub" where
  "publishRequestFile fileKey [] hub = hub"
| "publishRequestFile fileKey (cm # rest) hub =
     publishRequestFile fileKey rest
       (case authorization cm of
          None \<Rightarrow> hub
        | Some au \<Rightarrow>
           if requestFiles (permissions au)
           then publishMessageToPubsubChannel (channelName cm)
                  (channelName cm @ ''-requestFiles'') (RequestFile fileKey) hub
           else hub)"

text \<open>\<^verbatim>\<open>_getChannelMembership\<close>: the first membership of that name.\<close>

definition getChannelMembership :: "Hub \<Rightarrow> string \<Rightarrow> NodeChannelMembership option" where
  "getChannelMembership hub name =
     (case nodeConfig hub of
        None \<Rightarrow> None
      | Some cfg \<Rightarrow>
         (case filter (\<lambda>cm. channelName cm = name) (membershipsOf cfg) of
            [] \<Rightarrow> None
          | x # others \<Rightarrow> Some x))"

text \<open>
  \<^verbatim>\<open>_handleKacheryHubPubsubMessage\<close>. A bucket URI in a condition is falsy when it is
  absent or the empty string.
\<close>

definition handleKacheryHubPubsubMessage :: "IncomingKacheryHubPubsubMessage \<Rightarrow> Hub \<Rightarrow> Hub" where
  "handleKacheryHubPubsubMessage x hub =
     (case in_message x of
        RequestFile fileKey \<Rightarrow>
          if in_pubsubChannelName x \<noteq> in_channelName x @ ''-requestFiles'' then hub
          else
            (case getChannelMembership hub (in_channelName x) of
               None \<Rightarrow> hub
             | Some cm \<Rightarrow>
                (case channelBucketUri cm of
                   None \<Rightarrow> hub
                 | Some bucketUri \<Rightarrow>
                    if bucketUri = [] then hub
                    else hub\<lparr>incomingFileRequestCalls := incomingFileRequestCalls hub @
                                 [(fileKey, in_channelName x, in_fromNodeId x)]\<rparr>))
      | RequestSubfeed feedId subfeedHash position \<Rightarrow>
          if in_pubsubChannelName x \<noteq> in_channelName x @ ''-requestFeeds'' then hub
          else
            (case nodeConfig hub of
               None \<Rightarrow> hub
             | Some cfg \<Rightarrow>
                (case filter (\<lambda>cm. channelName cm = in_channelName x) (membershipsOf cfg) of
                   [] \<Rightarrow> hub
                 | cm # others \<Rightarrow>
                    (case authorization cm of
                       None \<Rightarrow> hub
                     | Some au \<Rightarrow>
                        if provideFeeds (roles cm) \<and> provideFeeds (permissions au)
                        then hub\<lparr>requestSubfeedCalls := requestSubfeedCalls hub @
                                    [(in_channelName x, feedId, subfeedHash, position)]\<rparr>
                        else hub)))
      | SubfeedMessageCountUpdate feedId subfeedHash count \<Rightarrow>
          if in_pubsubChannelName x \<noteq> in_channelName x @ ''-provideFeeds'' then hub
          else hub\<lparr>subfeedMessageCountUpdateCalls := subfeedMessageCountUpdateCalls hub @
                       [(feedId, subfeedHash, in_channelName x, count)]\<rparr>
      | UploadFileStatus fileKey status \<Rightarrow> hub)"

subsection \<open>Waiting for the upload of a requested file\<close>

text \<open>
  The variables of the promise in \<^verbatim>\<open>requestFileFromChannels\<close>: \<open>status\<close>, \<open>timer\<close>
  (a timestamp in milliseconds), \<open>complete\<close>, and the value the promise was resolved
  with. Time enters through the events: a pubsub message arrives at a time, and
  \<^verbatim>\<open>check\<close> runs at a time (first at once, then whenever its 1001 ms timeout fires).
\<close>

record Waiter =
  w_status :: UploadStatus
  w_timer :: int
  w_complete :: bool
  w_resolved :: "bool option"

datatype WaiterEvent = Incoming int PubsubMessageBody | Check int

text \<open>
  Modelled from the spec: \<^verbatim>\<open>nowTimestamp\<close> and \<^verbatim>\<open>elapsedSince\<close> belong to the types
  module, which is not among the sources. Timestamps are milliseconds, and the time
  elapsed since \<open>timer\<close> is the present time minus \<open>timer\<close>.
\<close>

definition elapsedSince :: "int \<Rightarrow> int \<Rightarrow> int" where
  "elapsedSince now timer = now - timer"

fun stageFromStatus :: "UploadStatus \<Rightarrow> nat" where
  "stageFromStatus NoStatus = 0"
| "stageFromStatus Pending = 1"
| "stageFromStatus Started = 2"
| "stageFromStatus Finished = 3"

definition finalize :: "Waiter \<Rightarrow> Waiter" where
  "finalize w = w\<lparr>w_complete := True, w_resolved := Some False\<rparr>"

text \<open>
  One event. \<open>fileKeyHash\<close> is the hash of \<^verbatim>\<open>fileKeysMatch\<close>, from the types module.
\<close>

fun waiterEvent :: "(FileKey \<Rightarrow> string) \<Rightarrow> FileKey \<Rightarrow> Waiter \<Rightarrow> WaiterEvent \<Rightarrow> Waiter" where
  "waiterEvent fileKeyHash fileKey w (Incoming now msg) =
     (if w_complete w then w
      else
        (case msg of
           UploadFileStatus msgFileKey newStatus \<Rightarrow>
             if fileKeyHash msgFileKey = fileKeyHash fileKey then
               (let currentStage = stageFromStatus (w_status w);
                    newStage = stageFromStatus newStatus;
                    w1 = (if newStage > currentStage
                          then w\<lparr>w_status := newStatus, w_timer := now\<rparr> else w)
                in if w_status w1 = Finished
                   then w1\<lparr>w_complete := True, w_resolved := Some True\<rparr>
                   else w1)
             else w
         | _ \<Rightarrow> w))"
| "waiterEvent fileKeyHash fileKey w (Check now) =
     (if w_complete w then w
      else
        (let elapsed = elapsedSince now (w_timer w)
         in if w_status w = NoStatus then (if elapsed > 3000 then finalize w else w)
            else if w_status w = Pending then (if elapsed > 30000 then finalize w else w)
            else if w_status w = Started then (if elapsed > 30000 then finalize w else w)
            else w))"

text \<open>
  \<^verbatim>\<open>requestFileFromChannels(fileKey)\<close> on an initialized interface: without a node
  configuration the answer is false at once. Otherwise the waiter starts at time
  \<open>now\<close>, the request is published, \<^verbatim>\<open>check\<close> runs once, and the events follow.
\<close>

definition newWaiter :: "int \<Rightarrow> Waiter" where
  "newWaiter now = \<lparr>w_status = NoStatus, w_timer = now, w_complete = False, w_resolved = None\<rparr>"

text \<open>The waiter created at time \<open>now\<close>, after the given events.\<close>

definition runWaiter :: "(FileKey \<Rightarrow> string) \<Rightarrow> FileKey \<Rightarrow> int \<Rightarrow> WaiterEvent list \<Rightarrow> Waiter" where
  "runWaiter fileKeyHash fileKey now events =
     foldl (waiterEvent fileKeyHash fileKey) (newWaiter now) events"

definition requestFileFromChannels ::
  "(FileKey \<Rightarrow> string) \<Rightarrow> FileKey \<Rightarrow> int \<Rightarrow> WaiterEvent list \<Rightarrow> Hub \<Rightarrow> Hub \<times> bool option" where
  "requestFileFromChannels fileKeyHash fileKey now events hub =
     (case nodeConfig hub of
        None \<Rightarrow> (hub, Some False)
      | Some cfg \<Rightarrow>
         (publishRequestFile fileKey (membershipsOf cfg) hub,
          w_resolved (runWaiter fileKeyHash fileKey now (Check now # events))))"


text \<open>Concrete inputs for the runs below.\<close>

definition noFlags :: ChannelFlags where
  "noFlags = \<lparr>requestFiles = False, provideFiles = False, requestFeeds = False, provideFeeds = False\<rparr>"

definition permittedOnly :: NodeChannelMembership where
  "permittedOnly =
     \<lparr>channelName = ''ch'', channelBucketUri = Some ''gs://bucket'', roles = noFlags,
      authorization = Some \<lparr>permissions = noFlags\<lparr>requestFiles := True\<rparr>\<rparr>\<rparr>"

definition newHub :: Hub where
  "newHub = \<lparr>nodeConfig = None, pubsubClients = [], published = [],
            incomingFileRequestCalls = [], requestSubfeedCalls = [],
            subfeedMessageCountUpdateCalls = []\<rparr>"

definition someFileKey :: FileKey where
  "someFileKey = FileKey ''abcdef'' None None"

definition hashBySha1 :: "FileKey \<Rightarrow> string" where
  "hashBySha1 k = fk_sha1 k"

definition emptyPrevMessage :: "unit SignedSubfeedMessage" where
  "emptyPrevMessage = mkMessage 0 (Some []) ''s0''"

definition missingTargetStore :: CAS where
  "missingTargetStore =
     \<lparr>storageDir = ''/k'',
      files = [''/k/sha1/ab/cd/ef/abcdef.link'' \<mapsto> [123, 125]],
      fileStored = []\<rparr>"


section \<open>Theorems\<close>

subsection \<open>C6: the bucket path of a subfeed\<close>

text \<open>
  C6. The claim: the bucket path of a subfeed is
  \<open>feeds/<aa>/<bb>/<cc>/<feedId>/subfeeds/<aa>/<bb>/<cc>/<subfeedHash>\<close>. The code
  returns its template text unexpanded: at \<open>feedId = 0123456789\<close> and
  \<open>subfeedHash = abcdefabcd\<close> the result is the literal with its braces, and it
  differs from the path of the specification.
\<close>

theorem getSubfeedPath_unexpanded:
  "getSubfeedPath ''0123456789'' ''abcdefabcd'' =
     ''feeds/{f[0]}{f[1]}/{f[2]}{f[3]}/{f[4]}{f[5]}/{f}/subfeeds/{s[0]}{s[1]}/{s[2]}{s[3]}//{s[4]}{s[5]}/{s}''
   \<and> specSubfeedPath ''0123456789'' ''abcdefabcd'' =
     ''feeds/01/23/45/0123456789/subfeeds/ab/cd/ef/abcdefabcd''
   \<and> getSubfeedPath ''0123456789'' ''abcdefabcd'' \<noteq> specSubfeedPath ''0123456789'' ''abcdefabcd''"
  by (simp add: getSubfeedPath_def specSubfeedPath_def jsIdx_def)

subsection \<open>C1: loading and verifying a subfeed\<close>

lemma all_less_Suc_split: "(\<forall>i<Suc n. P i) \<longleftrightarrow> (P 0 \<and> (\<forall>i<n. P (Suc i)))"
  by (metis less_Suc_eq_0_disj Suc_less_eq zero_less_Suc)

lemma verifyMessages_None_iff:
  "verifyMessages v k ps pn ms = None \<longleftrightarrow>
     (\<forall>i<length ms. v (body (ms ! i)) k (signature (ms ! i))
        \<and> messageNumber (body (ms ! i)) = pn + 1 + int i
        \<and> orNull (previousSignature (body (ms ! i))) =
            (if i = 0 then ps else Some (signature (ms ! (i - 1)))))"
proof (induction ms arbitrary: ps pn)
  case Nil
  then show ?case by simp
next
  case (Cons m ms)
  have step: "verifyMessages v k ps pn (m # ms) = None \<longleftrightarrow>
      (v (body m) k (signature m) \<and> messageNumber (body m) = pn + 1
        \<and> orNull (previousSignature (body m)) = ps)
      \<and> verifyMessages v k (Some (signature m)) (messageNumber (body m)) ms = None"
    by auto
  have tl: "(if i = 0 then Some (signature m) else Some (signature (ms ! (i - 1))))
          = Some (signature ((m # ms) ! i))" for i
    by (cases i) auto
  have arith: "messageNumber (body m) = pn + 1 \<Longrightarrow>
      (x = messageNumber (body m) + 1 + int i) = (x = pn + 1 + int (Suc i))" for x i
    by auto
  show ?case
    unfolding step Cons.IH length_Cons all_less_Suc_split tl
    by (auto simp: arith)
qed

lemma orNull_None_iff: "orNull x = None \<longleftrightarrow> x = None \<or> x = Some []"
  by (auto simp: orNull_def split: option.splits)

lemma orNull_Some_iff: "orNull x = Some s \<longleftrightarrow> x = Some s \<and> s \<noteq> []"
  by (auto simp: orNull_def split: option.splits)

lemma verifyMessages_exact:
  "verifyMessages v k None (-1) messages = None \<longleftrightarrow>
     ((\<forall>i<length messages.
          messageNumber (body (messages ! i)) = int i
        \<and> v (body (messages ! i)) k (signature (messages ! i)))
      \<and> (messages \<noteq> [] \<longrightarrow> previousSignature (body (messages ! 0)) = None
                             \<or> previousSignature (body (messages ! 0)) = Some [])
      \<and> (\<forall>i. Suc i < length messages \<longrightarrow>
            previousSignature (body (messages ! Suc i)) = Some (signature (messages ! i))))
      \<and> (\<forall>i. Suc i < length messages \<longrightarrow> signature (messages ! i) \<noteq> [])"
  (is "?ok \<longleftrightarrow> (?A \<and> ?B \<and> ?C) \<and> ?N")
proof -
  have A: "?ok \<longleftrightarrow>
     (\<forall>i<length messages. v (body (messages ! i)) k (signature (messages ! i))
        \<and> messageNumber (body (messages ! i)) = int i
        \<and> orNull (previousSignature (body (messages ! i))) =
            (if i = 0 then None else Some (signature (messages ! (i - 1)))))"
    (is "_ \<longleftrightarrow> ?L")
    unfolding verifyMessages_None_iff by auto
  have "?L \<longleftrightarrow> (?A \<and> ?B \<and> ?C) \<and> ?N"
  proof
    assume L: ?L
    have a: ?A using L by blast
    have b: ?B
    proof
      assume "messages \<noteq> []"
      then have "0 < length messages" by simp
      with L have "orNull (previousSignature (body (messages ! 0))) = None" by auto
      then show "previousSignature (body (messages ! 0)) = None
                             \<or> previousSignature (body (messages ! 0)) = Some []"
        by (simp add: orNull_None_iff)
    qed
    have cn: "previousSignature (body (messages ! Suc i)) = Some (signature (messages ! i))
        \<and> signature (messages ! i) \<noteq> []" if "Suc i < length messages" for i
    proof -
      from L that have "orNull (previousSignature (body (messages ! Suc i)))
          = Some (signature (messages ! i))" by auto
      then show ?thesis by (simp add: orNull_Some_iff)
    qed
    from a b cn show "(?A \<and> ?B \<and> ?C) \<and> ?N" by blast
  next
    assume R: "(?A \<and> ?B \<and> ?C) \<and> ?N"
    show ?L
    proof (intro allI impI)
      fix i assume i: "i < length messages"
      have p: "orNull (previousSignature (body (messages ! i))) =
            (if i = 0 then None else Some (signature (messages ! (i - 1))))"
      proof (cases i)
        case 0
        with i have "messages \<noteq> []" by auto
        with R 0 show ?thesis by (auto simp: orNull_None_iff)
      next
        case (Suc j)
        with i R have "previousSignature (body (messages ! Suc j)) = Some (signature (messages ! j))"
          and "signature (messages ! j) \<noteq> []" by auto
        with Suc show ?thesis by (simp add: orNull_Some_iff)
      qed
      from R i p show "v (body (messages ! i)) k (signature (messages ! i))
        \<and> messageNumber (body (messages ! i)) = int i
        \<and> orNull (previousSignature (body (messages ! i))) =
            (if i = 0 then None else Some (signature (messages ! (i - 1))))" by blast
    qed
  qed
  with A show ?thesis by (rule trans)
qed

lemma assemble_load:
  assumes "F \<longleftrightarrow> Cd \<and> N" and "F \<longrightarrow> S" and "\<not> F \<longrightarrow> U"
  shows "(F \<longrightarrow> S \<and> Cd) \<and> (\<not> Cd \<longrightarrow> \<not> F \<and> U) \<and> (F \<longleftrightarrow> Cd \<and> N) \<and> (\<not> F \<longrightarrow> U)"
  using assms by blast

text \<open>
  C1, as amended. From an uninitialized manager: a load that completes stores exactly
  the fetched list, and then, for all \<open>i\<close>, \<open>messages[i].body.messageNumber = i\<close>,
  each signature verifies over its body under the public key,
  \<open>messages[0].body.previousSignature\<close> is null or the empty string, and
  \<open>messages[i+1].body.previousSignature = messages[i].signature\<close>. A list that violates
  one of these makes the load throw, and the manager stays as it was: uninitialized.
  Exactly, the load completes if and only if these hold and no signature that has a
  successor is the empty string.
\<close>

theorem initializeFromLocal_chain:
  assumes fresh: "signedMessages mgr = None"
  shows "(fst (initializeFromLocal v k (Inr messages) mgr) = None \<longrightarrow>
            signedMessages (snd (initializeFromLocal v k (Inr messages) mgr)) = Some messages
          \<and> (\<forall>i<length messages.
                messageNumber (body (messages ! i)) = int i
              \<and> v (body (messages ! i)) k (signature (messages ! i)))
          \<and> (messages \<noteq> [] \<longrightarrow> previousSignature (body (messages ! 0)) = None
                                 \<or> previousSignature (body (messages ! 0)) = Some [])
          \<and> (\<forall>i. Suc i < length messages \<longrightarrow>
                previousSignature (body (messages ! Suc i)) = Some (signature (messages ! i))))
       \<and> (\<not> ((\<forall>i<length messages.
                messageNumber (body (messages ! i)) = int i
              \<and> v (body (messages ! i)) k (signature (messages ! i)))
          \<and> (messages \<noteq> [] \<longrightarrow> previousSignature (body (messages ! 0)) = None
                                 \<or> previousSignature (body (messages ! 0)) = Some [])
          \<and> (\<forall>i. Suc i < length messages \<longrightarrow>
                previousSignature (body (messages ! Suc i)) = Some (signature (messages ! i)))) \<longrightarrow>
            fst (initializeFromLocal v k (Inr messages) mgr) \<noteq> None
          \<and> snd (initializeFromLocal v k (Inr messages) mgr) = mgr
          \<and> \<not> isInitialized (snd (initializeFromLocal v k (Inr messages) mgr)))
       \<and> (fst (initializeFromLocal v k (Inr messages) mgr) = None \<longleftrightarrow>
            ((\<forall>i<length messages.
                messageNumber (body (messages ! i)) = int i
              \<and> v (body (messages ! i)) k (signature (messages ! i)))
          \<and> (messages \<noteq> [] \<longrightarrow> previousSignature (body (messages ! 0)) = None
                                 \<or> previousSignature (body (messages ! 0)) = Some [])
          \<and> (\<forall>i. Suc i < length messages \<longrightarrow>
                previousSignature (body (messages ! Suc i)) = Some (signature (messages ! i))))
          \<and> (\<forall>i. Suc i < length messages \<longrightarrow> signature (messages ! i) \<noteq> []))
       \<and> (fst (initializeFromLocal v k (Inr messages) mgr) \<noteq> None \<longrightarrow>
            snd (initializeFromLocal v k (Inr messages) mgr) = mgr
          \<and> \<not> isInitialized (snd (initializeFromLocal v k (Inr messages) mgr)))"
proof -
  let ?r = "initializeFromLocal v k (Inr messages) mgr"
  have C: "fst ?r = None \<longleftrightarrow> verifyMessages v k None (-1) messages = None"
    by (simp add: initializeFromLocal_def split: option.splits)
  note E = verifyMessages_exact[of v k messages]
  have S: "fst ?r = None \<longrightarrow> signedMessages (snd ?r) = Some messages"
    by (simp add: initializeFromLocal_def split: option.splits)
  have U: "fst ?r \<noteq> None \<longrightarrow> snd ?r = mgr \<and> \<not> isInitialized (snd ?r)"
    using fresh by (simp add: initializeFromLocal_def isInitialized_def split: option.splits)
  have CE: "fst ?r = None \<longleftrightarrow>
            ((\<forall>i<length messages.
                messageNumber (body (messages ! i)) = int i
              \<and> v (body (messages ! i)) k (signature (messages ! i)))
          \<and> (messages \<noteq> [] \<longrightarrow> previousSignature (body (messages ! 0)) = None
                                 \<or> previousSignature (body (messages ! 0)) = Some [])
          \<and> (\<forall>i. Suc i < length messages \<longrightarrow>
                previousSignature (body (messages ! Suc i)) = Some (signature (messages ! i))))
          \<and> (\<forall>i. Suc i < length messages \<longrightarrow> signature (messages ! i) \<noteq> [])"
    using C E by (rule trans)
  show ?thesis by (rule assemble_load[OF CE S U])
qed

text \<open>
  C1 as stated fails where the source reads \<^verbatim>\<open>msg.body.previousSignature || null\<close>: a
  single message numbered 0 whose \<open>previousSignature\<close> is the empty string loads
  and initializes the manager, and its \<open>previousSignature\<close> is not null.
\<close>

theorem initializeFromLocal_empty_previousSignature_counterexample:
  "fst (initializeFromLocal acceptAll () (Inr [emptyPrevMessage]) freshManager) = None
   \<and> isInitialized (snd (initializeFromLocal acceptAll () (Inr [emptyPrevMessage]) freshManager))
   \<and> previousSignature (body ([emptyPrevMessage] ! 0)) = Some []
   \<and> previousSignature (body ([emptyPrevMessage] ! 0)) \<noteq> None"
  by (simp add: initializeFromLocal_def acceptAll_def orNull_def emptyPrevMessage_def mkMessage_def
      isInitialized_def freshManager_def)

theorem initializeFromLocal_chain_witness:
  "fst (initializeFromLocal acceptAll () (Inr [msg0, msg1, msg2]) freshManager) = None
   \<and> signedMessages (snd (initializeFromLocal acceptAll () (Inr [msg0, msg1, msg2]) freshManager))
       = Some [msg0, msg1, msg2]
   \<and> fst (initializeFromLocal acceptAll () (Inr [msg0, msg2]) freshManager)
       = Some InconsistentPreviousSignature
   \<and> \<not> isInitialized (snd (initializeFromLocal acceptAll () (Inr [msg0, msg2]) freshManager))"
proof -
  have fresh: "signedMessages freshManager = None" by (simp add: freshManager_def)
  have ok: "fst (initializeFromLocal acceptAll () (Inr [msg0, msg1, msg2]) freshManager) = None"
    by (simp add: initializeFromLocal_def acceptAll_def orNull_def msg0_def msg1_def msg2_def
        mkMessage_def)
  have bad: "fst (initializeFromLocal acceptAll () (Inr [msg0, msg2]) freshManager)
      = Some InconsistentPreviousSignature"
    by (simp add: initializeFromLocal_def acceptAll_def orNull_def msg0_def msg2_def mkMessage_def)
  from initializeFromLocal_chain[OF fresh, of acceptAll "()" "[msg0, msg1, msg2]"] ok
  have stored: "signedMessages (snd (initializeFromLocal acceptAll () (Inr [msg0, msg1, msg2]) freshManager))
       = Some [msg0, msg1, msg2]" by blast
  from bad have bad': "fst (initializeFromLocal acceptAll () (Inr [msg0, msg2]) freshManager) \<noteq> None"
    by simp
  from initializeFromLocal_chain[OF fresh, of acceptAll "()" "[msg0, msg2]"] bad'
  have un: "\<not> isInitialized (snd (initializeFromLocal acceptAll () (Inr [msg0, msg2]) freshManager))"
    by blast
  from ok stored bad un show ?thesis by blast
qed

subsection \<open>C8: replaying a batch of signed messages\<close>

lemma pushMessages_length_mono: "length current \<le> length (pushMessages current ms)"
proof (induction ms arbitrary: current)
  case Nil then show ?case by simp
next
  case (Cons m ms)
  show ?case using Cons.IH[of "current @ [m]"] Cons.IH[of current] by auto
qed

lemma pushMessages_none:
  "\<forall>m\<in>set ms. num m \<noteq> int (length current) \<Longrightarrow> pushMessages current ms = current"
  by (induction ms arbitrary: current) auto

lemma pushMessages_last:
  "pushMessages current ms \<noteq> current \<Longrightarrow>
     num (last (pushMessages current ms)) = int (length (pushMessages current ms)) - 1"
proof (induction ms arbitrary: current)
  case Nil then show ?case by simp
next
  case (Cons m ms)
  show ?case
  proof (cases "num m = int (length current)")
    case True
    show ?thesis
    proof (cases "pushMessages (current @ [m]) ms = current @ [m]")
      case True
      with \<open>num m = int (length current)\<close> show ?thesis by simp
    next
      case False
      from Cons.IH[OF False] True show ?thesis by simp
    qed
  next
    case False
    with Cons show ?thesis by simp
  qed
qed

lemma pushMessages_fixed_iff:
  "pushMessages current ms = current \<longleftrightarrow> (\<forall>m\<in>set ms. num m \<noteq> int (length current))"
proof
  assume "\<forall>m\<in>set ms. num m \<noteq> int (length current)"
  then show "pushMessages current ms = current" by (rule pushMessages_none)
next
  assume fixed: "pushMessages current ms = current"
  show "\<forall>m\<in>set ms. num m \<noteq> int (length current)"
  proof (rule ccontr)
    assume "\<not> (\<forall>m\<in>set ms. num m \<noteq> int (length current))"
    then have "\<exists>m\<in>set ms. num m = int (length current)" by blast
    then have "length current < length (pushMessages current ms)"
    proof (induction ms)
      case Nil
      then show ?case by simp
    next
      case (Cons x xs)
      show ?case
      proof (cases "num x = int (length current)")
        case True
        have "length (current @ [x]) \<le> length (pushMessages (current @ [x]) xs)"
          by (rule pushMessages_length_mono)
        with True show ?thesis by simp
      next
        case False
        with Cons show ?thesis by auto
      qed
    qed
    with fixed show False by simp
  qed
qed

lemma pushMessages_splice:
  "\<exists>added. pushMessages current ms = current @ added \<and> set added \<subseteq> set ms
     \<and> (\<forall>j<length added. num (added ! j) = int (length current + j))"
proof (induction ms arbitrary: current)
  case Nil
  then show ?case by simp
next
  case (Cons m ms)
  show ?case
  proof (cases "num m = int (length current)")
    case True
    from Cons.IH[of "current @ [m]"] obtain added where
      a: "pushMessages (current @ [m]) ms = (current @ [m]) @ added" and s: "set added \<subseteq> set ms"
      and n: "\<forall>j<length added. num (added ! j) = int (length (current @ [m]) + j)" by blast
    have n': "\<forall>j<length (m # added). num ((m # added) ! j) = int (length current + j)"
    proof (intro allI impI)
      fix j assume "j < length (m # added)"
      then show "num ((m # added) ! j) = int (length current + j)"
        using True n by (cases j) auto
    qed
    have "pushMessages current (m # ms) = current @ (m # added)" using True a by simp
    moreover have "set (m # added) \<subseteq> set (m # ms)" using s by auto
    ultimately show ?thesis using n' by blast
  next
    case False
    from Cons.IH[of current] obtain added where
      a: "pushMessages current ms = current @ added" and s: "set added \<subseteq> set ms"
      and n: "\<forall>j<length added. num (added ! j) = int (length current + j)" by blast
    have "pushMessages current (m # ms) = current @ added" using False a by simp
    moreover have "set added \<subseteq> set (m # ms)" using s by auto
    ultimately show ?thesis using n by blast
  qed
qed

lemma pushMessages_replay_sorted:
  assumes "sorted (map num ms)"
  shows "\<forall>m\<in>set ms. num m \<noteq> int (length (pushMessages current ms))"
  using assms
proof (induction ms arbitrary: current)
  case Nil
  then show ?case by simp
next
  case (Cons m ms)
  from Cons.prems have srt: "sorted (map num ms)" and low: "\<forall>x\<in>set ms. num m \<le> num x"
    by simp_all
  consider (eq) "num m = int (length current)" | (lt) "num m < int (length current)"
    | (gt) "num m > int (length current)" by linarith
  then show ?case
  proof cases
    case eq
    have "length (current @ [m]) \<le> length (pushMessages (current @ [m]) ms)"
      by (rule pushMessages_length_mono)
    with eq Cons.IH[OF srt, of "current @ [m]"] show ?thesis by simp
  next
    case lt
    have "length current \<le> length (pushMessages current ms)" by (rule pushMessages_length_mono)
    with lt Cons.IH[OF srt, of current] show ?thesis by simp
  next
    case gt
    with low have "\<forall>x\<in>set ms. num x \<noteq> int (length current)" by fastforce
    then have "pushMessages current ms = current" by (rule pushMessages_none)
    with gt low show ?thesis by fastforce
  qed
qed

lemma sorted_hd_least:
  "sorted (map num ms) \<Longrightarrow> m \<in> set ms \<Longrightarrow> num (hd ms) \<le> num m"
  by (cases ms) auto

lemma addSignedMessages_result:
  assumes "signedMessages mgr = Some current"
  shows "(fst (addSignedMessages add batch (lfm, mgr)) \<noteq> None
            \<and> snd (snd (addSignedMessages add batch (lfm, mgr))) = mgr)
       \<or> (fst (addSignedMessages add batch (lfm, mgr)) = None
            \<and> snd (snd (addSignedMessages add batch (lfm, mgr)))
                = mgr\<lparr>signedMessages := Some (pushMessages current batch)\<rparr>)"
  using assms
  by (auto simp: addSignedMessages_def Let_def split: option.splits sum.splits if_splits)

text \<open>
  C8, as amended. Let \<open>addSignedMessages\<close> succeed on a batch. If the message numbers
  of the batch never decrease (duplicates and gaps allowed), calling it again with the
  identical batch leaves the in-memory list equal to the result of the single call, and
  the second call raises no error of its own: it fails only if the backing log refuses
  the batch. For any batch, the list after the second call equals the list after the
  first exactly when the second call throws or no message of the batch has the number
  that is the length reached by the first call. And for any batch, the single call
  appends to the current list only messages of the batch whose number equals the length
  of the list at that moment, so every message numbered below the current length is
  dropped.
\<close>

theorem addSignedMessages_replay:
  assumes first: "addSignedMessages add batch (lfm, mgr) = (None, lfm1, mgr1)"
  shows "(sorted (map (\<lambda>m. messageNumber (body m)) batch) \<longrightarrow>
            signedMessages (snd (snd (addSignedMessages add batch (lfm1, mgr1)))) = signedMessages mgr1
          \<and> (\<forall>lfm2. add lfm1 batch = Inr lfm2 \<longrightarrow>
                addSignedMessages add batch (lfm1, mgr1) = (None, lfm2, mgr1)))
       \<and> (\<forall>current1. signedMessages mgr1 = Some current1 \<longrightarrow>
            (signedMessages (snd (snd (addSignedMessages add batch (lfm1, mgr1)))) = Some current1
              \<longleftrightarrow> fst (addSignedMessages add batch (lfm1, mgr1)) \<noteq> None
                  \<or> (\<forall>m\<in>set batch. messageNumber (body m) \<noteq> int (length current1))))
       \<and> (\<forall>current. signedMessages mgr = Some current \<longrightarrow>
            (\<exists>added. signedMessages mgr1 = Some (current @ added) \<and> set added \<subseteq> set batch
               \<and> (\<forall>j<length added. messageNumber (body (added ! j)) = int (length current + j))
               \<and> (\<forall>m\<in>set added. int (length current) \<le> messageNumber (body m))))"
proof -
  from first obtain current where cur: "signedMessages mgr = Some current"
    by (auto simp: addSignedMessages_def split: option.splits)
  let ?c1 = "pushMessages current batch"
  from first cur have m1: "mgr1 = mgr\<lparr>signedMessages := Some ?c1\<rparr>"
    by (auto simp: addSignedMessages_def Let_def split: option.splits sum.splits if_splits)
  have s1: "signedMessages mgr1 = Some ?c1" unfolding m1 by simp
  obtain added where ad: "?c1 = current @ added" and sub: "set added \<subseteq> set batch"
    and nums: "\<forall>j<length added. num (added ! j) = int (length current + j)"
    using pushMessages_splice[of current batch] by blast
  have low: "\<forall>m\<in>set added. int (length current) \<le> num m"
  proof
    fix m assume "m \<in> set added"
    then obtain j where "j < length added" and "added ! j = m" by (auto simp: in_set_conv_nth)
    with nums show "int (length current) \<le> num m" by auto
  qed
  have third: "\<forall>c. signedMessages mgr = Some c \<longrightarrow>
            (\<exists>added. signedMessages mgr1 = Some (c @ added) \<and> set added \<subseteq> set batch
               \<and> (\<forall>j<length added. messageNumber (body (added ! j)) = int (length c + j))
               \<and> (\<forall>m\<in>set added. int (length c) \<le> messageNumber (body m)))"
    using cur s1 ad sub nums low by auto
  note res = addSignedMessages_result[OF s1, of add batch lfm1]
  have second: "\<forall>c1. signedMessages mgr1 = Some c1 \<longrightarrow>
            (signedMessages (snd (snd (addSignedMessages add batch (lfm1, mgr1)))) = Some c1
              \<longleftrightarrow> fst (addSignedMessages add batch (lfm1, mgr1)) \<noteq> None
                  \<or> (\<forall>m\<in>set batch. messageNumber (body m) \<noteq> int (length c1)))"
  proof (intro allI impI)
    fix c1 assume "signedMessages mgr1 = Some c1"
    with s1 have c1: "c1 = ?c1" by simp
    from res show "signedMessages (snd (snd (addSignedMessages add batch (lfm1, mgr1)))) = Some c1
              \<longleftrightarrow> fst (addSignedMessages add batch (lfm1, mgr1)) \<noteq> None
                  \<or> (\<forall>m\<in>set batch. messageNumber (body m) \<noteq> int (length c1))"
    proof
      assume "fst (addSignedMessages add batch (lfm1, mgr1)) \<noteq> None
            \<and> snd (snd (addSignedMessages add batch (lfm1, mgr1))) = mgr1"
      with s1 c1 show ?thesis by simp
    next
      assume a: "fst (addSignedMessages add batch (lfm1, mgr1)) = None
            \<and> snd (snd (addSignedMessages add batch (lfm1, mgr1)))
                = mgr1\<lparr>signedMessages := Some (pushMessages ?c1 batch)\<rparr>"
      then have "signedMessages (snd (snd (addSignedMessages add batch (lfm1, mgr1)))) = Some c1
          \<longleftrightarrow> pushMessages ?c1 batch = ?c1" using c1 by simp
      with a c1 show ?thesis by (simp add: pushMessages_fixed_iff)
    qed
  qed
  have firstc: "sorted (map (\<lambda>m. messageNumber (body m)) batch) \<longrightarrow>
            signedMessages (snd (snd (addSignedMessages add batch (lfm1, mgr1)))) = signedMessages mgr1
          \<and> (\<forall>lfm2. add lfm1 batch = Inr lfm2 \<longrightarrow>
                addSignedMessages add batch (lfm1, mgr1) = (None, lfm2, mgr1))"
  proof
    assume srt: "sorted (map (\<lambda>m. messageNumber (body m)) batch)"
    have rep: "pushMessages ?c1 batch = ?c1"
      using pushMessages_replay_sorted[OF srt, of current] by (simp add: pushMessages_fixed_iff)
    have pre: "?c1 \<noteq> [] \<and> num (hd batch) \<le> num (last ?c1) + 1" if ne: "batch \<noteq> []"
    proof (cases "?c1 = current")
      case True
      from first cur ne have p: "(current = [] \<longrightarrow> num (hd batch) = 0)
          \<and> (current \<noteq> [] \<longrightarrow> num (hd batch) \<le> num (last current) + 1)"
        by (auto simp: addSignedMessages_def Let_def split: option.splits sum.splits if_splits)
      have "current \<noteq> []"
      proof
        assume e: "current = []"
        with p have z: "num (hd batch) = 0" by simp
        obtain b bs where b: "batch = b # bs" using ne by (cases batch) auto
        with z e have "pushMessages current batch = pushMessages [b] bs" by simp
        moreover have "length [b] \<le> length (pushMessages [b] bs)" by (rule pushMessages_length_mono)
        ultimately show False using True e by simp
      qed
      with p True show ?thesis by simp
    next
      case False
      from pushMessages_last[OF False] have l: "num (last ?c1) = int (length ?c1) - 1" .
      from False ad have "added \<noteq> []" by auto
      then have a0: "added ! 0 \<in> set batch" and n0: "num (added ! 0) = int (length current)"
        using sub nums by (auto simp: subset_iff)
      from sorted_hd_least[OF srt a0] n0 have "num (hd batch) \<le> int (length current)" by simp
      moreover have "length current < length ?c1" using ad \<open>added \<noteq> []\<close> by simp
      moreover have "?c1 \<noteq> []" using ad \<open>added \<noteq> []\<close> by simp
      ultimately show ?thesis using l by simp
    qed
    have sec: "addSignedMessages add batch (lfm1, mgr1) =
       (case add lfm1 batch of Inl e \<Rightarrow> (Some e, lfm1, mgr1) | Inr lfm2 \<Rightarrow> (None, lfm2, mgr1))"
    proof (cases "batch = []")
      case True
      then show ?thesis using m1 by (simp add: addSignedMessages_def Let_def split: sum.splits)
    next
      case False
      from pre[OF False] False show ?thesis using m1 rep
        by (simp add: addSignedMessages_def Let_def split: sum.splits)
    qed
    show "signedMessages (snd (snd (addSignedMessages add batch (lfm1, mgr1)))) = signedMessages mgr1
          \<and> (\<forall>lfm2. add lfm1 batch = Inr lfm2 \<longrightarrow>
                addSignedMessages add batch (lfm1, mgr1) = (None, lfm2, mgr1))"
      unfolding sec by (auto split: sum.splits)
  qed
  from firstc second third show ?thesis by (intro conjI)
qed

theorem addSignedMessages_replay_witness:
  "addSignedMessages appendingLog [msg0, msg0, msg2] ([], emptyManager)
     = (None, [msg0, msg0, msg2], \<lparr>signedMessages = Some [msg0]\<rparr>)
   \<and> addSignedMessages appendingLog [msg0, msg0, msg2]
        ([msg0, msg0, msg2], \<lparr>signedMessages = Some [msg0]\<rparr>)
     = (None, [msg0, msg0, msg2, msg0, msg0, msg2], \<lparr>signedMessages = Some [msg0]\<rparr>)"
proof -
  have srt: "sorted (map (\<lambda>m. messageNumber (body m)) [msg0, msg0, msg2])"
    by (simp add: msg0_def msg2_def mkMessage_def)
  have first: "addSignedMessages appendingLog [msg0, msg0, msg2] ([], emptyManager)
     = (None, [msg0, msg0, msg2], \<lparr>signedMessages = Some [msg0]\<rparr>)"
    by (simp add: addSignedMessages_def appendingLog_def emptyManager_def msg0_def msg2_def
        mkMessage_def)
  have log: "appendingLog [msg0, msg0, msg2] [msg0, msg0, msg2]
      = Inr [msg0, msg0, msg2, msg0, msg0, msg2]"
    by (simp add: appendingLog_def)
  from addSignedMessages_replay[OF first] srt log
  have "addSignedMessages appendingLog [msg0, msg0, msg2]
        ([msg0, msg0, msg2], \<lparr>signedMessages = Some [msg0]\<rparr>)
     = (None, [msg0, msg0, msg2, msg0, msg0, msg2], \<lparr>signedMessages = Some [msg0]\<rparr>)"
    by blast
  with first show ?thesis by blast
qed

text \<open>
  C8 as stated fails for a batch that satisfies the append precondition but is out of
  order. From the empty list, the batch numbered 0, 2, 1 appends messages 0 and 1 (2 is
  skipped: the list has length 1 when it is seen); the same batch again passes the
  precondition (0 is at most 1 + 1) and now appends message 2.
\<close>

theorem addSignedMessages_replay_counterexample:
  "addSignedMessages appendingLog [msg0, msg2, msg1] ([], emptyManager)
     = (None, [msg0, msg2, msg1], \<lparr>signedMessages = Some [msg0, msg1]\<rparr>)
   \<and> addSignedMessages appendingLog [msg0, msg2, msg1]
        ([msg0, msg2, msg1], \<lparr>signedMessages = Some [msg0, msg1]\<rparr>)
     = (None, [msg0, msg2, msg1, msg0, msg2, msg1], \<lparr>signedMessages = Some [msg0, msg1, msg2]\<rparr>)
   \<and> [msg0, msg1, msg2] \<noteq> [msg0, msg1]"
  by (simp add: addSignedMessages_def appendingLog_def emptyManager_def msg0_def msg1_def msg2_def
      mkMessage_def)

subsection \<open>C10: storing a buffer under any hash\<close>

lemma destPath_nonempty: "destPathOf dir s \<noteq> []"
  by (simp add: destPathOf_def)

lemma storeFile_installs:
  assumes absent: "\<not> existsSync (files cas) (destPathOf (storageDir cas) sha1)"
  shows "storeFile rnd sha1 data cas =
     (None, cas\<lparr>files := ((files cas)(destPathOf (storageDir cas) sha1 \<mapsto> data))
                              (destPathOf (storageDir cas) sha1 @ ''.'' @ rnd @ ''.tmp'' := None),
                fileStored := fileStored cas @ [sha1]\<rparr>)"
proof -
  let ?dest = "destPathOf (storageDir cas) sha1"
  let ?tmp = "?dest @ ''.'' @ rnd @ ''.tmp''"
  have ne: "?tmp \<noteq> ?dest" by simp
  have a: "\<not> existsSync ((files cas)(?tmp \<mapsto> data)) ?dest"
    using absent ne by (simp add: existsSync_def)
  have r: "renameAndCheck ((files cas)(?tmp \<mapsto> data)) ?tmp ?dest (length data)
      = (None, ((files cas)(?dest \<mapsto> data))(?tmp := None))"
    using ne by (auto simp: renameAndCheck_def renameSync_def fun_upd_def)
  show ?thesis
    using absent a r by (simp add: storeFile_def Let_def reportFileStored_def)
qed

text \<open>
  C10. \<^verbatim>\<open>storeFile\<close> never hashes its input. Whenever the buffer does not hash to the
  given \<open>sha1\<close> (and nothing is stored under \<open>sha1\<close> yet), the call still succeeds,
  installs the buffer at the content path derived from \<open>sha1\<close>, emits
  \<open>onFileStored(sha1)\<close>, and a following \<open>findFile({sha1})\<close> reports \<open>found = true\<close>
  for it.
\<close>

theorem storeFile_unverified:
  assumes mismatch: "H data \<noteq> sha1"
      and truthy: "sha1 \<noteq> []"
      and absent: "\<not> existsSync (files cas) (destPathOf (storageDir cas) sha1)"
  shows "fst (storeFile rnd sha1 data cas) = None
       \<and> files (snd (storeFile rnd sha1 data cas)) (destPathOf (storageDir cas) sha1) = Some data
       \<and> fileStored (snd (storeFile rnd sha1 data cas)) = fileStored cas @ [sha1]
       \<and> findFile readLink (snd (storeFile rnd sha1 data cas)) (FileKey sha1 None None)
           = \<lparr>ff_found = True, ff_size = int (length data),
              ff_localFilePath = Some (destPathOf (storageDir cas) sha1)\<rparr>"
proof -
  let ?dest = "destPathOf (storageDir cas) sha1"
  have ne: "?dest @ ''.'' @ rnd @ ''.tmp'' \<noteq> ?dest" by simp
  note s = storeFile_installs[OF absent, of rnd data]
  have f: "files (snd (storeFile rnd sha1 data cas)) ?dest = Some data"
    unfolding s using ne by simp
  have d: "storageDir (snd (storeFile rnd sha1 data cas)) = storageDir cas"
    unfolding s by simp
  have "findFile readLink (snd (storeFile rnd sha1 data cas)) (FileKey sha1 None None)
           = \<lparr>ff_found = True, ff_size = int (length data), ff_localFilePath = Some ?dest\<rparr>"
    using truthy f d destPath_nonempty[of "storageDir cas" sha1]
    by (simp add: findFile_def getLocalFileInfo_def getLocalFileInfo1_def truthyPath_def)
  with f show ?thesis unfolding s by simp
qed

theorem storeFile_unverified_witness:
  "zeroHash [1, 2, 3] \<noteq> ''abcdef''
   \<and> fst (storeFile ''QWERT'' ''abcdef'' [1, 2, 3] emptyStore) = None
   \<and> files (snd (storeFile ''QWERT'' ''abcdef'' [1, 2, 3] emptyStore)) ''/k/sha1/ab/cd/ef/abcdef''
        = Some [1, 2, 3]
   \<and> fileStored (snd (storeFile ''QWERT'' ''abcdef'' [1, 2, 3] emptyStore)) = [''abcdef'']
   \<and> ff_found (findFile noLinks (snd (storeFile ''QWERT'' ''abcdef'' [1, 2, 3] emptyStore))
         (FileKey ''abcdef'' None None))"
proof -
  have m: "zeroHash [1, 2, 3] \<noteq> ''abcdef''" by (simp add: zeroHash_def)
  have t: "''abcdef'' \<noteq> []" by simp
  have a: "\<not> existsSync (files emptyStore) (destPathOf (storageDir emptyStore) ''abcdef'')"
    by (simp add: existsSync_def emptyStore_def)
  have p: "destPathOf (storageDir emptyStore) ''abcdef'' = ''/k/sha1/ab/cd/ef/abcdef''"
    by (simp add: destPathOf_def destParentPathOf_def jsIdx_def emptyStore_def)
  have e: "fileStored emptyStore = []" by (simp add: emptyStore_def)
  from storeFile_unverified[of zeroHash "[1, 2, 3]" "''abcdef''" emptyStore "''QWERT''" noLinks,
      OF m t a] m
  show ?thesis
    unfolding p e by simp
qed

subsection \<open>C9: resolving a hash through a link file\<close>

text \<open>
  C9, as amended. For a hash that has no direct file, \<open>findFile\<close> reports
  \<open>found = false\<close> when there is no link file, when the link file does not read as a
  link object, and when the file the link names cannot be stat'ed (or the link names no
  path); otherwise it reports \<open>found = true\<close> with the link's path and the size the
  file has now. The size recorded in the link takes no part in the answer.
\<close>

theorem findFile_link_resolution:
  assumes truthy: "sha1 \<noteq> []"
      and nodirect: "files cas (destPathOf (storageDir cas) sha1) = None"
  shows "findFile readLink cas (FileKey sha1 None None) =
           (case files cas (destPathOf (storageDir cas) sha1 @ ''.link'') of
              None \<Rightarrow> notFound
            | Some txt \<Rightarrow>
               (case readLink txt of
                  None \<Rightarrow> notFound
                | Some x \<Rightarrow>
                   (case files cas (link_path x) of
                      None \<Rightarrow> notFound
                    | Some d \<Rightarrow>
                        if link_path x = [] then notFound
                        else \<lparr>ff_found = True, ff_size = int (length d),
                              ff_localFilePath = Some (link_path x)\<rparr>)))"
  using assms
  by (simp add: findFile_def findFileChunkOf_def getLocalFileInfo_def getLocalFileInfo1_def
      getLocalFileInfo2_def truthyPath_def existsSync_def Let_def split: option.splits)

lemma linkedStore_paths:
  "destPathOf (storageDir linkedStore) ''abcdef'' = ''/k/sha1/ab/cd/ef/abcdef''"
  by (simp add: destPathOf_def destParentPathOf_def jsIdx_def linkedStore_def)

text \<open>
  C9 as stated fails: the link for \<open>abcdef\<close> records size 5 for \<open>/data/f\<close>, the file
  now has 3 bytes, and \<open>findFile\<close> still reports it found, with size 3.
\<close>

theorem findFile_stale_link_counterexample:
  "staleLink [123, 125] =
      Some \<lparr>link_path = ''/data/f'', link_manifestSha1 = None, link_size = 5, link_mtime = 0\<rparr>
   \<and> files linkedStore ''/data/f'' = Some [1, 2, 3]
   \<and> findFile staleLink linkedStore (FileKey ''abcdef'' None None)
       = \<lparr>ff_found = True, ff_size = 3, ff_localFilePath = Some ''/data/f''\<rparr>"
  by (simp add: staleLink_def linkedStore_def findFile_def findFileChunkOf_def getLocalFileInfo_def
      getLocalFileInfo1_def getLocalFileInfo2_def truthyPath_def existsSync_def Let_def
      destPathOf_def destParentPathOf_def jsIdx_def)

lemma missingTargetStore_paths:
  "destPathOf (storageDir missingTargetStore) ''abcdef'' = ''/k/sha1/ab/cd/ef/abcdef''"
  by (simp add: destPathOf_def destParentPathOf_def jsIdx_def missingTargetStore_def)

theorem findFile_link_resolution_witness:
  "findFile staleLink linkedStore (FileKey ''abcdef'' None None)
       = \<lparr>ff_found = True, ff_size = 3, ff_localFilePath = Some ''/data/f''\<rparr>
   \<and> findFile noLinks linkedStore (FileKey ''abcdef'' None None) = notFound
   \<and> findFile staleLink missingTargetStore (FileKey ''abcdef'' None None) = notFound
   \<and> findFile staleLink emptyStore (FileKey ''abcdef'' None None) = notFound"
proof -
  have t: "''abcdef'' \<noteq> []" by simp
  have n: "files linkedStore (destPathOf (storageDir linkedStore) ''abcdef'') = None"
    unfolding linkedStore_paths by (simp add: linkedStore_def)
  have l: "files linkedStore (destPathOf (storageDir linkedStore) ''abcdef'' @ ''.link'') = Some [123, 125]"
    unfolding linkedStore_paths by (simp add: linkedStore_def)
  have p: "staleLink [123, 125] =
      Some \<lparr>link_path = ''/data/f'', link_manifestSha1 = None, link_size = 5, link_mtime = 0\<rparr>"
    by (simp add: staleLink_def)
  have f: "files linkedStore ''/data/f'' = Some [1, 2, 3]" by (simp add: linkedStore_def)
  have a: "findFile staleLink linkedStore (FileKey ''abcdef'' None None)
       = \<lparr>ff_found = True, ff_size = 3, ff_localFilePath = Some ''/data/f''\<rparr>"
    using findFile_link_resolution[of "''abcdef''" linkedStore staleLink, OF t n] l p f by simp
  have b: "findFile noLinks linkedStore (FileKey ''abcdef'' None None) = notFound"
    using findFile_link_resolution[of "''abcdef''" linkedStore noLinks, OF t n] l
    by (simp add: noLinks_def)
  have n2: "files missingTargetStore (destPathOf (storageDir missingTargetStore) ''abcdef'') = None"
    unfolding missingTargetStore_paths by (simp add: missingTargetStore_def)
  have l2: "files missingTargetStore (destPathOf (storageDir missingTargetStore) ''abcdef'' @ ''.link'')
      = Some [123, 125]"
    unfolding missingTargetStore_paths by (simp add: missingTargetStore_def)
  have f2: "files missingTargetStore ''/data/f'' = None" by (simp add: missingTargetStore_def)
  have c: "findFile staleLink missingTargetStore (FileKey ''abcdef'' None None) = notFound"
    using findFile_link_resolution[of "''abcdef''" missingTargetStore staleLink, OF t n2] l2 p f2
    by simp
  have n3: "files emptyStore (destPathOf (storageDir emptyStore) ''abcdef'') = None"
    by (simp add: emptyStore_def)
  have l3: "files emptyStore (destPathOf (storageDir emptyStore) ''abcdef'' @ ''.link'') = None"
    by (simp add: emptyStore_def)
  have d: "findFile staleLink emptyStore (FileKey ''abcdef'' None None) = notFound"
    using findFile_link_resolution[of "''abcdef''" emptyStore staleLink, OF t n3] l3 by simp
  from a b c d show ?thesis by blast
qed

subsection \<open>C3: a bucket download with the wrong hash\<close>

lemma tmp_not_dest: "dir @ ''/store.file.'' @ rnd @ ''.tmp'' \<noteq> destPathOf dir s"
  by (simp add: destPathOf_def destParentPathOf_def)

lemma download_data:
  assumes "\<not> dl_complete dl" and "files cas (dl_tmpDestPath dl) = Some c0"
  shows "foldl (downloadEvent H sha1 sz) (cas, dl) (map HttpData bufs) =
     (cas\<lparr>files := (files cas)(dl_tmpDestPath dl \<mapsto> c0 @ concat bufs)\<rparr>,
      dl\<lparr>dl_bytesReceived := dl_bytesReceived dl @ map length bufs,
         dl_shasum := dl_shasum dl @ concat bufs,
         dl_producer := dl_producer dl @ map (\<lambda>b. IncrementBytes (length b)) bufs\<rparr>)"
  using assms
proof (induction bufs arbitrary: cas dl c0)
  case Nil
  then show ?case by (simp add: fun_upd_idem)
next
  case (Cons b bufs)
  let ?cas1 = "cas\<lparr>files := appendFile (files cas) (dl_tmpDestPath dl) b\<rparr>"
  let ?dl1 = "dl\<lparr>dl_bytesReceived := dl_bytesReceived dl @ [length b],
                  dl_shasum := dl_shasum dl @ b,
                  dl_producer := dl_producer dl @ [IncrementBytes (length b)]\<rparr>"
  have step: "downloadEvent H sha1 sz (cas, dl) (HttpData b) = (?cas1, ?dl1)"
    using Cons.prems by (simp add: Let_def)
  have c: "\<not> dl_complete ?dl1" using Cons.prems by simp
  have f: "files ?cas1 (dl_tmpDestPath ?dl1) = Some (c0 @ b)"
    using Cons.prems by (simp add: appendFile_def)
  have t: "dl_tmpDestPath ?dl1 = dl_tmpDestPath dl" by simp
  have "foldl (downloadEvent H sha1 sz) (cas, dl) (map HttpData (b # bufs))
      = foldl (downloadEvent H sha1 sz) (?cas1, ?dl1) (map HttpData bufs)"
    by (simp only: list.map foldl_Cons step)
  also have "\<dots> = (?cas1\<lparr>files := (files ?cas1)(dl_tmpDestPath ?dl1 \<mapsto> (c0 @ b) @ concat bufs)\<rparr>,
      ?dl1\<lparr>dl_bytesReceived := dl_bytesReceived ?dl1 @ map length bufs,
         dl_shasum := dl_shasum ?dl1 @ concat bufs,
         dl_producer := dl_producer ?dl1 @ map (\<lambda>b. IncrementBytes (length b)) bufs\<rparr>)"
    by (rule Cons.IH[OF c f])
  also have "\<dots> = (cas\<lparr>files := (files cas)(dl_tmpDestPath dl \<mapsto> c0 @ concat (b # bufs))\<rparr>,
      dl\<lparr>dl_bytesReceived := dl_bytesReceived dl @ map length (b # bufs),
         dl_shasum := dl_shasum dl @ concat (b # bufs),
         dl_producer := dl_producer dl @ map (\<lambda>b. IncrementBytes (length b)) (b # bufs)\<rparr>)"
    by (simp add: appendFile_def)
  finally show ?case .
qed

lemma download_complete:
  assumes "dl_complete dl"
  shows "fst (foldl (downloadEvent H sha1 sz) (cas, dl) evs) = cas
       \<and> dl_producer (snd (foldl (downloadEvent H sha1 sz) (cas, dl) evs)) = dl_producer dl
       \<and> dl_complete (snd (foldl (downloadEvent H sha1 sz) (cas, dl) evs))"
  using assms
proof (induction evs arbitrary: dl)
  case Nil
  then show ?case by simp
next
  case (Cons e evs)
  obtain dl1 where s: "downloadEvent H sha1 sz (cas, dl) e = (cas, dl1)"
      and c: "dl_complete dl1" and p: "dl_producer dl1 = dl_producer dl"
    using Cons.prems by (cases e) (auto simp: Let_def)
  show ?case using Cons.IH[OF c] p by (simp add: s)
qed

text \<open>
  C3. A download whose stream delivers its data and then ends with a SHA-1 different
  from the expected one reports the hash error on the returned stream and never ends
  it; the temporary file is gone, every content path holds what it held before, and no
  \<open>onFileStored\<close> is emitted. Whatever the stream or the socket deliver after the end
  changes nothing of this.
\<close>

theorem storeFileFromBucketUrl_mismatch:
  assumes mismatch: "H (concat bufs) \<noteq> sha1"
      and run: "storeFileFromBucketUrl H rnd (Inr (sz, map HttpData bufs @ HttpEnd # rest)) sha1 cas
                 = (err, cas', dl')"
  shows "err = None
       \<and> dl_producer dl' = ProducerStart sz # map (\<lambda>b. IncrementBytes (length b)) bufs
            @ [ProducerError (UnexpectedSha1OfDownloadedFile (H (concat bufs)) sha1)]
       \<and> files cas' = (files cas)(storageDir cas @ ''/store.file.'' @ rnd @ ''.tmp'' := None)
       \<and> files cas' (storageDir cas @ ''/store.file.'' @ rnd @ ''.tmp'') = None
       \<and> (\<forall>s. files cas' (destPathOf (storageDir cas) s) = files cas (destPathOf (storageDir cas) s))
       \<and> fileStored cas' = fileStored cas"
proof -
  let ?tmp = "storageDir cas @ ''/store.file.'' @ rnd @ ''.tmp''"
  let ?cas0 = "cas\<lparr>files := (files cas)(?tmp \<mapsto> [])\<rparr>"
  let ?dl0 = "\<lparr>dl_tmpDestPath = ?tmp, dl_shasum = [], dl_complete = False,
                 dl_producer = [ProducerStart sz], dl_bytesReceived = [], dl_requestDestroyed = False\<rparr>"
  have d: "foldl (downloadEvent H sha1 sz) (?cas0, ?dl0) (map HttpData bufs) =
     (?cas0\<lparr>files := (files ?cas0)(?tmp \<mapsto> [] @ concat bufs)\<rparr>,
      ?dl0\<lparr>dl_bytesReceived := dl_bytesReceived ?dl0 @ map length bufs,
         dl_shasum := dl_shasum ?dl0 @ concat bufs,
         dl_producer := dl_producer ?dl0 @ map (\<lambda>b. IncrementBytes (length b)) bufs\<rparr>)"
    (is "_ = (?cas1, ?dl1)")
    using download_data[of ?dl0 ?cas0 "[]" H sha1 sz bufs] by simp
  let ?cas2 = "cas\<lparr>files := (files cas)(?tmp := None)\<rparr>"
  let ?dl2 = "?dl1\<lparr>dl_complete := True,
       dl_producer := dl_producer ?dl1 @ [ProducerError (UnexpectedSha1OfDownloadedFile (H (concat bufs)) sha1)]\<rparr>"
  have e: "downloadEvent H sha1 sz (?cas1, ?dl1) HttpEnd = (?cas2, ?dl2)"
    using mismatch by (simp add: Let_def dlReportError_def dlCleanup_def unlinkQuiet_def)
  have c: "dl_complete ?dl2" by simp
  note r = download_complete[OF c, of H sha1 sz ?cas2 rest]
  have all: "foldl (downloadEvent H sha1 sz) (?cas0, ?dl0) (map HttpData bufs @ HttpEnd # rest)
      = foldl (downloadEvent H sha1 sz) (?cas2, ?dl2) rest"
    by (simp only: foldl_append foldl_Cons d e)
  from run have "err = None" and c': "cas' = fst (foldl (downloadEvent H sha1 sz) (?cas2, ?dl2) rest)"
    and d': "dl' = snd (foldl (downloadEvent H sha1 sz) (?cas2, ?dl2) rest)"
    unfolding storeFileFromBucketUrl_def Let_def
    by (auto simp: all[simplified] split: prod.splits)
  with r have c2: "cas' = ?cas2" and p2: "dl_producer dl' = dl_producer ?dl2" by auto
  have f: "files cas' = (files cas)(?tmp := None)" unfolding c2 by simp
  have g: "files cas' (destPathOf (storageDir cas) s) = files cas (destPathOf (storageDir cas) s)" for s
    unfolding f using tmp_not_dest[of "storageDir cas" rnd s] by (metis fun_upd_other)
  have h: "files cas' ?tmp = None" unfolding f by (simp only: fun_upd_apply if_True refl)
  have k: "fileStored cas' = fileStored cas" unfolding c2 by simp
  have p3: "dl_producer dl' = ProducerStart sz # map (\<lambda>b. IncrementBytes (length b)) bufs
            @ [ProducerError (UnexpectedSha1OfDownloadedFile (H (concat bufs)) sha1)]"
    unfolding p2 by simp
  from \<open>err = None\<close> p3 f h g k show ?thesis by blast
qed

theorem storeFileFromBucketUrl_mismatch_witness:
  "zeroHash (concat [[1, 2], [3]]) \<noteq> ''abcdef''
   \<and> dl_producer (snd (snd (storeFileFromBucketUrl zeroHash ''ABCDEFGHIJ''
          (Inr (3, map HttpData [[1, 2], [3]] @ HttpEnd # [SocketClose])) ''abcdef'' emptyStore)))
       = [ProducerStart 3, IncrementBytes 2, IncrementBytes 1,
          ProducerError (UnexpectedSha1OfDownloadedFile
             ''0000000000000000000000000000000000000000'' ''abcdef'')]
   \<and> files (fst (snd (storeFileFromBucketUrl zeroHash ''ABCDEFGHIJ''
          (Inr (3, map HttpData [[1, 2], [3]] @ HttpEnd # [SocketClose])) ''abcdef'' emptyStore)))
       = Map.empty
   \<and> fileStored (fst (snd (storeFileFromBucketUrl zeroHash ''ABCDEFGHIJ''
          (Inr (3, map HttpData [[1, 2], [3]] @ HttpEnd # [SocketClose])) ''abcdef'' emptyStore)))
       = []"
proof -
  let ?r = "storeFileFromBucketUrl zeroHash ''ABCDEFGHIJ''
          (Inr (3, map HttpData [[1, 2], [3]] @ HttpEnd # [SocketClose])) ''abcdef'' emptyStore"
  have m: "zeroHash (concat [[1, 2], [3]]) \<noteq> ''abcdef''" by (simp add: zeroHash_def)
  have run: "?r = (fst ?r, fst (snd ?r), snd (snd ?r))" by simp
  have e: "files emptyStore = Map.empty" "fileStored emptyStore = []"
    by (simp_all add: emptyStore_def)
  from storeFileFromBucketUrl_mismatch[OF m run] m show ?thesis
    unfolding e by (simp add: zeroHash_def)
qed

subsection \<open>C4: concatenating chunks to the wrong hash\<close>

lemma concat_tmp_not_dest:
  "createTemporaryFilePath dir prefix rnd \<noteq> destPathOf dir s"
  by (simp add: destPathOf_def destParentPathOf_def createTemporaryFilePath_def)

lemma appendChunks_keeps:
  assumes "appendChunks readLink tmp cs (cas, sh, n) = (e, cas', sh', n')"
      and "files cas tmp = Some sh"
  shows "(e = None \<longrightarrow> files cas' tmp = Some sh')
       \<and> (\<exists>d. files cas' tmp = Some d)
       \<and> (\<forall>p. p \<noteq> tmp \<longrightarrow> files cas' p = files cas p)
       \<and> fileStored cas' = fileStored cas \<and> storageDir cas' = storageDir cas"
  using assms
proof (induction cs arbitrary: cas sh n)
  case Nil
  then show ?case by simp
next
  case (Cons c cs)
  show ?case
  proof (cases "getFileData readLink cas (FileKey c None None)")
    case (Inl err)
    with Cons.prems show ?thesis by simp
  next
    case (Inr buf)
    let ?cas1 = "cas\<lparr>files := appendFile (files cas) tmp buf\<rparr>"
    from Cons.prems(1) Inr
    have r: "appendChunks readLink tmp cs (?cas1, sh @ buf, n + length buf) = (e, cas', sh', n')"
      by simp
    have f: "files ?cas1 tmp = Some (sh @ buf)" using Cons.prems(2) by (simp add: appendFile_def)
    from Cons.IH[OF r f] show ?thesis by (simp add: appendFile_def)
  qed
qed

lemma verifyChunks_error:
  "verifyChunks readLink cas cs = Some e \<Longrightarrow> e \<noteq> UnexpectedSha1OfConcatenatedFile"
  by (induction cs) (auto split: if_splits)

lemma readFileRange_error:
  "readFileRange fs p off sz = Inl e \<Longrightarrow> e \<noteq> UnexpectedSha1OfConcatenatedFile"
  by (auto simp: readFileRange_def Let_def split: if_splits option.splits)

lemma getFileData_error:
  "getFileData readLink cas k = Inl e \<Longrightarrow> e \<noteq> UnexpectedSha1OfConcatenatedFile"
  by (auto simp: getFileData_def getFileDataChunkOf_def
      split: if_splits option.splits prod.splits dest: readFileRange_error)

lemma appendChunks_error:
  "appendChunks readLink tmp cs (cas, sh, n) = (Some e, cas', sh', n')
     \<Longrightarrow> e \<noteq> UnexpectedSha1OfConcatenatedFile"
proof (induction cs arbitrary: cas sh n)
  case Nil
  then show ?case by simp
next
  case (Cons c cs)
  show ?case
  proof (cases "getFileData readLink cas (FileKey c None None)")
    case (Inl err)
    with Cons.prems getFileData_error[OF Inl] show ?thesis by simp
  next
    case (Inr buf)
    with Cons.prems Cons.IH show ?thesis by simp
  qed
qed

text \<open>
  C4. The claim: on a hash mismatch the concatenation aborts, the temporary file is
  deleted and nothing is installed. The code aborts and installs nothing, but it never
  removes the temporary file: whenever the call fails with the mismatch error, the
  temporary file is still there, holding the bytes that did not hash to \<open>sha1\<close>.
\<close>

theorem concatenate_mismatch_keeps_temp:
  assumes "concatenateChunksAndStoreResult H readLink rnd sha1 chunkSha1s cas
             = (Some UnexpectedSha1OfConcatenatedFile, cas')"
  shows "(\<exists>d. files cas' (createTemporaryFilePath (storageDir cas) ''kachery-daemon-concat-'' rnd) = Some d
             \<and> H d \<noteq> sha1)
       \<and> files cas' (destPathOf (storageDir cas) sha1) = None
       \<and> fileStored cas' = fileStored cas"
proof -
  let ?tmp = "createTemporaryFilePath (storageDir cas) ''kachery-daemon-concat-'' rnd"
  let ?dest = "destPathOf (storageDir cas) sha1"
  let ?cas0 = "cas\<lparr>files := (files cas)(?tmp \<mapsto> [])\<rparr>"
  have ne: "?dest \<noteq> ?tmp" using concat_tmp_not_dest[of "storageDir cas" "''kachery-daemon-concat-''" rnd sha1] by metis
  from assms have absent: "files cas ?dest = None"
    by (auto simp: concatenateChunksAndStoreResult_def Let_def existsSync_def split: if_splits)
  obtain e cas1 sh n where ac: "appendChunks readLink ?tmp chunkSha1s (?cas0, [], 0) = (e, cas1, sh, n)"
    by (metis prod_cases4)
  have f0: "files ?cas0 ?tmp = Some []" by simp
  note k = appendChunks_keeps[OF ac f0]
  from assms absent ac have e: "e = None" and m: "H sh \<noteq> sha1" and c: "cas' = cas1"
    by (auto simp: concatenateChunksAndStoreResult_def Let_def existsSync_def renameAndCheck_def
        reportFileStored_def split: if_splits option.splits prod.splits
        dest: verifyChunks_error appendChunks_error)
  from k e have t: "files cas1 ?tmp = Some sh" by simp
  from k ne have d: "files cas1 ?dest = files ?cas0 ?dest" by blast
  have d0: "files ?cas0 ?dest = files cas ?dest" using ne by simp
  from k have s: "fileStored cas1 = fileStored cas" by simp
  from t m d d0 absent s show ?thesis unfolding c by simp
qed

theorem concatenate_mismatch_keeps_temp_witness:
  "concatenateChunksAndStoreResult zeroHash noLinks ''ABCDEFGHIJ'' ''abcdef'' [''c1c1c1''] chunkStore
     = (Some UnexpectedSha1OfConcatenatedFile,
        chunkStore\<lparr>files := (files chunkStore)(''/k/tmp/kachery-daemon-concat--ABCDEFGHIJ'' \<mapsto> [1, 2, 3])\<rparr>)
   \<and> files (snd (concatenateChunksAndStoreResult zeroHash noLinks ''ABCDEFGHIJ'' ''abcdef''
                  [''c1c1c1''] chunkStore)) ''/k/sha1/ab/cd/ef/abcdef'' = None"
proof -
  have run: "concatenateChunksAndStoreResult zeroHash noLinks ''ABCDEFGHIJ'' ''abcdef'' [''c1c1c1''] chunkStore
     = (Some UnexpectedSha1OfConcatenatedFile,
        chunkStore\<lparr>files := (files chunkStore)(''/k/tmp/kachery-daemon-concat--ABCDEFGHIJ'' \<mapsto> [1, 2, 3])\<rparr>)"
    by (simp add: concatenateChunksAndStoreResult_def chunkStore_def zeroHash_def noLinks_def
        destPathOf_def destParentPathOf_def jsIdx_def existsSync_def findFile_def
        getLocalFileInfo_def getLocalFileInfo1_def getLocalFileInfo2_def truthyPath_def
        getFileData_def readFileRange_def appendFile_def Let_def createTemporaryFilePath_def)
  have p: "destPathOf (storageDir chunkStore) ''abcdef'' = ''/k/sha1/ab/cd/ef/abcdef''"
    by (simp add: destPathOf_def destParentPathOf_def jsIdx_def chunkStore_def)
  from concatenate_mismatch_keeps_temp[OF run] run show ?thesis
    unfolding p by simp
qed

subsection \<open>C2: the chunks of a manifest\<close>

lemma chunkSize_pos: "0 < chunkSize"
  by (simp add: chunkSize_def)

lemma contiguous_snoc:
  "contiguous b (cs @ [c]) e \<longleftrightarrow> contiguous b cs (chunk_start c) \<and> chunk_end c = e"
  by (induction cs arbitrary: b) auto




lemma sliceLoop_nonfinal:
  assumes "contiguous 0 (manifestChunks md) (byte1 md)" and "fullChunks (manifestChunks md)"
  shows "contiguous 0 (manifestChunks (sliceLoop H False d i md)) (byte1 (sliceLoop H False d i md))
       \<and> fullChunks (manifestChunks (sliceLoop H False d i md))
       \<and> byte2 (sliceLoop H False d i md) = byte2 md
       \<and> byte1 (sliceLoop H False d i md) + length (concat (buffers (sliceLoop H False d i md)))
           = byte1 md + length (concat (buffers md)) + (length d - i)
       \<and> length (concat (buffers (sliceLoop H False d i md)))
           = length (concat (buffers md)) + (length d - i) mod chunkSize"
  using assms
proof (induction H "False" d i md rule: sliceLoop.induct)
  case (1 H d i md)
  show ?case
  proof (cases "i < length d")
    case False
    then show ?thesis using "1.prems" by (simp add: sliceLoop.simps[of H False d i md])
  next
    case True
    let ?x = "take (min chunkSize (length d - i)) (drop i d)"
    have lx: "length ?x = min chunkSize (length d - i)" by simp
    show ?thesis
    proof (cases "length ?x = chunkSize")
      case full: True
      let ?md1 = "md\<lparr>manifestChunks := manifestChunks md @
                          [\<lparr>chunk_start = byte1 md, chunk_end = byte1 md + length ?x, chunk_sha1 = H ?x\<rparr>],
                        byte1 := byte1 md + length ?x\<rparr>"
      have st: "sliceLoop H False d i md = sliceLoop H False d (i + chunkSize) ?md1"
        using True full by (subst sliceLoop.simps) (simp add: Let_def)
      have c1: "contiguous 0 (manifestChunks ?md1) (byte1 ?md1)"
        using "1.prems"(1) by (simp add: contiguous_snoc)
      have f1: "fullChunks (manifestChunks ?md1)"
        using "1.prems"(2) full by (simp add: fullChunks_def)
      have ge: "chunkSize \<le> length d - i" using full lx by simp
      have ar: "length ?x + (length d - (i + chunkSize)) = length d - i" using ge full by simp
      have md: "(length d - (i + chunkSize)) mod chunkSize = (length d - i) mod chunkSize"
        using ge by (metis diff_diff_left le_mod_geq)
      from "1.hyps"[OF True refl] c1 f1 full
      have ih: "contiguous 0 (manifestChunks (sliceLoop H False d (i + chunkSize) ?md1))
                  (byte1 (sliceLoop H False d (i + chunkSize) ?md1))
       \<and> fullChunks (manifestChunks (sliceLoop H False d (i + chunkSize) ?md1))
       \<and> byte2 (sliceLoop H False d (i + chunkSize) ?md1) = byte2 ?md1
       \<and> byte1 (sliceLoop H False d (i + chunkSize) ?md1)
            + length (concat (buffers (sliceLoop H False d (i + chunkSize) ?md1)))
           = byte1 ?md1 + length (concat (buffers ?md1)) + (length d - (i + chunkSize))
       \<and> length (concat (buffers (sliceLoop H False d (i + chunkSize) ?md1)))
           = length (concat (buffers ?md1)) + (length d - (i + chunkSize)) mod chunkSize"
        by simp
      show ?thesis unfolding st using ih ar md by simp
    next
      case part: False
      let ?md1 = "md\<lparr>buffers := buffers md @ [?x]\<rparr>"
      have st: "sliceLoop H False d i md = sliceLoop H False d (i + chunkSize) ?md1"
        using True part by (subst sliceLoop.simps) (simp add: Let_def)
      have lt: "length d - i < chunkSize" using part lx by (simp add: min_def split: if_splits)
      have stop: "sliceLoop H False d (i + chunkSize) ?md1 = ?md1"
        using lt by (subst sliceLoop.simps) simp
      have lx': "length ?x = length d - i" using lt lx by simp
      show ?thesis unfolding st stop using "1.prems" lt lx' by simp
    qed
  qed
qed

lemma update_nonfinal:
  assumes c: "contiguous 0 (manifestChunks md) (byte1 md)" and f: "fullChunks (manifestChunks md)"
      and b: "byte1 md + length (concat (buffers md)) = byte2 md"
  shows "mdInv (updateManifestChunks H False md) \<and> byte2 (updateManifestChunks H False md) = byte2 md"
proof (cases "byte2 md - byte1 md \<ge> chunkSize")
  case True
  let ?md0 = "md\<lparr>buffers := []\<rparr>"
  let ?d = "concat (buffers md)"
  have u: "updateManifestChunks H False md = sliceLoop H False ?d 0 ?md0"
    using True by (simp add: updateManifestChunks_def Let_def)
  have c0: "contiguous 0 (manifestChunks ?md0) (byte1 ?md0)" using c by simp
  have f0: "fullChunks (manifestChunks ?md0)" using f by simp
  note sl = sliceLoop_nonfinal[OF c0 f0, of H ?d 0]
  have "length (concat (buffers (sliceLoop H False ?d 0 ?md0))) < chunkSize"
    using sl chunkSize_pos by simp
  with sl b show ?thesis unfolding u mdInv_def by simp
next
  case False
  then have u: "updateManifestChunks H False md = md"
    by (simp add: updateManifestChunks_def)
  from False b have "length (concat (buffers md)) < chunkSize" by linarith
  with c f b show ?thesis unfolding u mdInv_def by simp
qed

lemma onData_inv:
  assumes "mdInv md"
  shows "mdInv (updateManifestChunks H False
            (md\<lparr>buffers := buffers md @ [buf], byte2 := byte2 md + length buf\<rparr>))
       \<and> byte2 (updateManifestChunks H False
            (md\<lparr>buffers := buffers md @ [buf], byte2 := byte2 md + length buf\<rparr>))
          = byte2 md + length buf"
proof -
  let ?md1 = "md\<lparr>buffers := buffers md @ [buf], byte2 := byte2 md + length buf\<rparr>"
  have c: "contiguous 0 (manifestChunks ?md1) (byte1 ?md1)" using assms by (simp add: mdInv_def)
  have f: "fullChunks (manifestChunks ?md1)" using assms by (simp add: mdInv_def)
  have b: "byte1 ?md1 + length (concat (buffers ?md1)) = byte2 ?md1"
    using assms by (simp add: mdInv_def)
  from update_nonfinal[OF c f b, of H] show ?thesis by simp
qed


lemma data_phase:
  assumes "\<not> ss_complete ss" and "mdInv (ss_manifestData ss)"
  shows "\<not> ss_complete (snd (foldl (storeStreamEvent H J rnd2 fileSize hashOnly) (cas, ss) (map OnData bufs)))
       \<and> mdInv (ss_manifestData (snd (foldl (storeStreamEvent H J rnd2 fileSize hashOnly) (cas, ss) (map OnData bufs))))
       \<and> byte2 (ss_manifestData (snd (foldl (storeStreamEvent H J rnd2 fileSize hashOnly) (cas, ss) (map OnData bufs))))
           = byte2 (ss_manifestData ss) + length (concat bufs)
       \<and> ss_shasum (snd (foldl (storeStreamEvent H J rnd2 fileSize hashOnly) (cas, ss) (map OnData bufs)))
           = ss_shasum ss @ concat bufs
       \<and> ss_settled (snd (foldl (storeStreamEvent H J rnd2 fileSize hashOnly) (cas, ss) (map OnData bufs)))
           = ss_settled ss"
  using assms
proof (induction bufs arbitrary: cas ss)
  case Nil
  then show ?case by simp
next
  case (Cons b bufs)
  obtain cas1 ss1 where st: "storeStreamEvent H J rnd2 fileSize hashOnly (cas, ss) (OnData b) = (cas1, ss1)"
    by (cases "storeStreamEvent H J rnd2 fileSize hashOnly (cas, ss) (OnData b)") auto
  let ?md = "ss_manifestData ss"
  from st Cons.prems(1) have ss1: "ss1 = ss\<lparr>ss_shasum := ss_shasum ss @ b,
      ss_manifestData := updateManifestChunks H False
         (?md\<lparr>buffers := buffers ?md @ [b], byte2 := byte2 ?md + length b\<rparr>)\<rparr>"
    by (auto simp: Let_def)
  note od = onData_inv[OF Cons.prems(2), of H b]
  have c1: "\<not> ss_complete ss1" using Cons.prems(1) ss1 by simp
  have i1: "mdInv (ss_manifestData ss1)" using od ss1 by simp
  have b1: "byte2 (ss_manifestData ss1) = byte2 ?md + length b" using od ss1 by simp
  have h1: "ss_shasum ss1 = ss_shasum ss @ b" using ss1 by simp
  have t1: "ss_settled ss1 = ss_settled ss" using ss1 by simp
  have fold: "foldl (storeStreamEvent H J rnd2 fileSize hashOnly) (cas, ss) (map OnData (b # bufs))
      = foldl (storeStreamEvent H J rnd2 fileSize hashOnly) (cas1, ss1) (map OnData bufs)"
    by (simp only: list.map foldl_Cons st)
  show ?case unfolding fold using Cons.IH[OF c1 i1, of cas1] b1 h1 t1 by simp
qed





lemma data_phase_files:
  assumes "\<not> ss_complete ss" and "ss_tmpDestPath ss = Some tmp" and "files cas tmp = Some c0"
  shows "files (fst (foldl (storeStreamEvent H J rnd2 fileSize hashOnly) (cas, ss) (map OnData bufs))) tmp
           = Some (c0 @ concat bufs)
       \<and> (\<forall>p. p \<noteq> tmp \<longrightarrow>
            files (fst (foldl (storeStreamEvent H J rnd2 fileSize hashOnly) (cas, ss) (map OnData bufs))) p
              = files cas p)
       \<and> storageDir (fst (foldl (storeStreamEvent H J rnd2 fileSize hashOnly) (cas, ss) (map OnData bufs)))
           = storageDir cas
       \<and> ss_tmpDestPath (snd (foldl (storeStreamEvent H J rnd2 fileSize hashOnly) (cas, ss) (map OnData bufs)))
           = Some tmp"
  using assms
proof (induction bufs arbitrary: cas ss c0)
  case Nil
  then show ?case by simp
next
  case (Cons b bufs)
  let ?md = "ss_manifestData ss"
  let ?cas1 = "cas\<lparr>files := appendFile (files cas) tmp b\<rparr>"
  let ?ss1 = "ss\<lparr>ss_shasum := ss_shasum ss @ b,
      ss_manifestData := updateManifestChunks H False
         (?md\<lparr>buffers := buffers ?md @ [b], byte2 := byte2 ?md + length b\<rparr>)\<rparr>"
  have st: "storeStreamEvent H J rnd2 fileSize hashOnly (cas, ss) (OnData b) = (?cas1, ?ss1)"
    using Cons.prems by (simp add: Let_def)
  have c1: "\<not> ss_complete ?ss1" using Cons.prems by simp
  have t1: "ss_tmpDestPath ?ss1 = Some tmp" using Cons.prems by simp
  have f1: "files ?cas1 tmp = Some (c0 @ b)" using Cons.prems by (simp add: appendFile_def)
  have fold: "foldl (storeStreamEvent H J rnd2 fileSize hashOnly) (cas, ss) (map OnData (b # bufs))
      = foldl (storeStreamEvent H J rnd2 fileSize hashOnly) (?cas1, ?ss1) (map OnData bufs)"
    by (simp only: list.map foldl_Cons st)
  have o: "p \<noteq> tmp \<Longrightarrow> files ?cas1 p = files cas p" for p by (simp add: appendFile_def)
  show ?case unfolding fold using Cons.IH[OF c1 t1 f1] o by simp
qed

lemma data_phase_hashOnly:
  assumes "\<not> ss_complete ss" and "ss_tmpDestPath ss = None"
  shows "ss_tmpDestPath (snd (foldl (storeStreamEvent H J rnd2 fileSize hashOnly) (cas, ss) (map OnData bufs)))
           = None"
  using assms
proof (induction bufs arbitrary: cas ss)
  case Nil
  then show ?case by simp
next
  case (Cons b bufs)
  let ?md = "ss_manifestData ss"
  let ?ss1 = "ss\<lparr>ss_shasum := ss_shasum ss @ b,
      ss_manifestData := updateManifestChunks H False
         (?md\<lparr>buffers := buffers ?md @ [b], byte2 := byte2 ?md + length b\<rparr>)\<rparr>"
  have st: "storeStreamEvent H J rnd2 fileSize hashOnly (cas, ss) (OnData b) = (cas, ?ss1)"
    using Cons.prems by (simp add: Let_def)
  have fold: "foldl (storeStreamEvent H J rnd2 fileSize hashOnly) (cas, ss) (map OnData (b # bufs))
      = foldl (storeStreamEvent H J rnd2 fileSize hashOnly) (cas, ?ss1) (map OnData bufs)"
    by (simp only: list.map foldl_Cons st)
  show ?case unfolding fold using Cons.IH[of ?ss1 cas] Cons.prems by simp
qed

lemma nextStep_resolves:
  "\<exists>sha1 m. ss_settled (snd (nextStep H J rnd2 s st)) = Some (Inr (sha1, m))"
  by (cases st) (simp add: nextStep_def Let_def)

lemma finished_step_resolves:
  assumes nc: "\<not> ss_complete ss1"
      and ok: "calculateHashOnly \<or> ss_tmpDestPath ss1 = None
                \<or> (\<exists>tmp. ss_tmpDestPath ss1 = Some tmp \<and> files cas1 tmp = Some content
                      \<and> length content = fileSize
                      \<and> tmp \<noteq> destPathOf (storageDir cas1) (H (ss_shasum ss1)))"
  shows "\<exists>sha1 m. ss_settled (snd (storeStreamEvent H J rnd2 fileSize calculateHashOnly
            (cas1, ss1) OnFinished)) = Some (Inr (sha1, m))"
proof (cases "calculateHashOnly \<or> ss_tmpDestPath ss1 = None")
  case True
  then have "storeStreamEvent H J rnd2 fileSize calculateHashOnly (cas1, ss1) OnFinished
      = nextStep H J rnd2 (H (ss_shasum ss1)) (cas1, ss1\<lparr>ss_complete := True\<rparr>)"
    using nc by (auto simp: Let_def split: option.splits)
  then show ?thesis using nextStep_resolves by metis
next
  case False
  with ok obtain tmp where tp: "ss_tmpDestPath ss1 = Some tmp" and ft: "files cas1 tmp = Some content"
    and sz: "length content = fileSize"
    and ne: "tmp \<noteq> destPathOf (storageDir cas1) (H (ss_shasum ss1))" by auto
  let ?dest = "destPathOf (storageDir cas1) (H (ss_shasum ss1))"
  show ?thesis
  proof (cases "existsSync (files cas1) ?dest")
    case True
    have "storeStreamEvent H J rnd2 fileSize calculateHashOnly (cas1, ss1) OnFinished
      = nextStep H J rnd2 (H (ss_shasum ss1)) (cas1, ss1\<lparr>ss_complete := True\<rparr>)"
      using nc tp True False by (simp add: Let_def)
    then show ?thesis using nextStep_resolves by metis
  next
    case nodest: False
    have rn: "renameAndCheck (files cas1) tmp ?dest fileSize
        = (None, ((files cas1)(?dest \<mapsto> content))(tmp := None))"
      using ft ne sz by (simp add: renameAndCheck_def renameSync_def)
    have "storeStreamEvent H J rnd2 fileSize calculateHashOnly (cas1, ss1) OnFinished
      = nextStep H J rnd2 (H (ss_shasum ss1))
          (cas1\<lparr>files := ((files cas1)(?dest \<mapsto> content))(tmp := None)\<rparr>,
           ss1\<lparr>ss_complete := True\<rparr>)"
      using nc tp nodest False rn by (simp add: Let_def)
    then show ?thesis using nextStep_resolves by metis
  qed
qed

text \<open>
  The promise does resolve when only the hash is wanted, and when the declared size is
  the size of the input.
\<close>

lemma storeFileFromStream_resolves:
  assumes "calculateHashOnly \<or> fileSize = length (concat bufs)"
  shows "\<exists>sha1 m. ss_settled (snd (storeFileFromStream H J rnd rnd2 (map OnData bufs @ [OnFinished])
            fileSize calculateHashOnly cas)) = Some (Inr (sha1, m))"
proof -
  let ?step = "storeStreamEvent H J rnd2 fileSize calculateHashOnly"
  let ?tmp = "storageDir cas @ ''/store.file.'' @ rnd @ ''.tmp''"
  let ?tmpo = "(if \<not> calculateHashOnly then Some ?tmp else None)"
  let ?cas0 = "(case ?tmpo of None \<Rightarrow> cas | Some tmp \<Rightarrow> cas\<lparr>files := (files cas)(tmp \<mapsto> [])\<rparr>)"
  let ?ss0 = "\<lparr>ss_tmpDestPath = ?tmpo, ss_shasum = [],
                 ss_manifestData = \<lparr>manifestChunks = [], buffers = [], byte1 = 0, byte2 = 0\<rparr>,
                 ss_complete = False, ss_settled = None\<rparr>"
  obtain cas1 ss1 where r1: "foldl ?step (?cas0, ?ss0) (map OnData bufs) = (cas1, ss1)"
    by (cases "foldl ?step (?cas0, ?ss0) (map OnData bufs)") auto
  have i0: "mdInv (ss_manifestData ?ss0)" using chunkSize_pos by (simp add: mdInv_def fullChunks_def)
  have c0: "\<not> ss_complete ?ss0" by simp
  have nc: "\<not> ss_complete ss1"
    using data_phase[OF c0 i0, of H J rnd2 fileSize calculateHashOnly ?cas0 bufs] r1 by simp
  have r: "storeFileFromStream H J rnd rnd2 (map OnData bufs @ [OnFinished]) fileSize calculateHashOnly cas
      = ?step (cas1, ss1) OnFinished"
    using r1 by (simp add: storeFileFromStream_def Let_def)
  have ok: "calculateHashOnly \<or> ss_tmpDestPath ss1 = None
                \<or> (\<exists>tmp. ss_tmpDestPath ss1 = Some tmp \<and> files cas1 tmp = Some (concat bufs)
                      \<and> length (concat bufs) = fileSize
                      \<and> tmp \<noteq> destPathOf (storageDir cas1) (H (ss_shasum ss1)))"
  proof (cases calculateHashOnly)
    case True
    then show ?thesis by simp
  next
    case False
    with assms have sz: "fileSize = length (concat bufs)" by simp
    from False have t0: "ss_tmpDestPath ?ss0 = Some ?tmp" and f0: "files ?cas0 ?tmp = Some []"
      by simp_all
    note df = data_phase_files[OF c0 t0 f0, of H J rnd2 fileSize calculateHashOnly bufs, unfolded r1]
    from df have ft: "files cas1 ?tmp = Some (concat bufs)" by simp
    from df False have sd: "storageDir cas1 = storageDir cas" by simp
    from df have tp: "ss_tmpDestPath ss1 = Some ?tmp" by simp
    have ne: "?tmp \<noteq> destPathOf (storageDir cas1) (H (ss_shasum ss1))"
      unfolding sd by (rule tmp_not_dest)
    from tp ft sz ne show ?thesis by blast
  qed
  show ?thesis unfolding r
    using finished_step_resolves[where H = H and content = "concat bufs", OF nc ok] .
qed



subsection \<open>C5: role and permission\<close>

text \<open>
  C5. The claim: a \<open>requestFile\<close> message is published only when the role
  \<open>requestFiles\<close> and the permission \<open>requestFiles\<close> both hold, and an incoming one is
  dispatched only when the role and the permission \<open>provideFiles\<close> both hold and a
  bucket URI is present. The code asks for the permission alone when publishing, and
  for the membership and the bucket URI alone when dispatching (there the only place
  where role and permission meet is the subscription made at initialization). For a
  membership with every role unset, the permission \<open>requestFiles\<close> set and the
  permission \<open>provideFiles\<close> unset, the request is published, and the handler
  dispatches a request it is given.
\<close>

theorem requestFile_permission_only:
  "\<not> requestFiles (roles permittedOnly) \<and> \<not> provideFiles (roles permittedOnly)
   \<and> published (fst (requestFileFromChannels hashBySha1 someFileKey 0 []
        (doInitialize (Some \<lparr>channelMemberships = Some [permittedOnly]\<rparr>) newHub)))
       = [(''ch'', ''ch-requestFiles'', RequestFile someFileKey)]
   \<and> incomingFileRequestCalls
        (handleKacheryHubPubsubMessage
           \<lparr>in_channelName = ''ch'', in_pubsubChannelName = ''ch-requestFiles'',
            in_fromNodeId = ''node1'', in_message = RequestFile someFileKey\<rparr>
           (doInitialize (Some \<lparr>channelMemberships = Some [permittedOnly]\<rparr>) newHub))
       = [(someFileKey, ''ch'', ''node1'')]"
  by (simp add: permittedOnly_def noFlags_def requestFileFromChannels_def doInitialize_def runWaiter_def
      membershipsOf_def newHub_def createPubsubClientForChannel_def
      publishMessageToPubsubChannel_def handleKacheryHubPubsubMessage_def
      getChannelMembership_def)

subsection \<open>C7: the stages of the wait for an upload\<close>
















lemma request_unconfigured:
  "nodeConfig hub = None \<Longrightarrow> requestFileFromChannels h fk t0 evs hub = (hub, Some False)"
  by (simp add: requestFileFromChannels_def)



end
